theory Spec2Isabelle
  imports Main
begin

section \<open>Bytes, errors and log levels\<close>

text \<open>
  A Go \<open>[]byte\<close> is a list of 8-bit characters. An \<open>error\<close> value is either the
  sentinel \<open>websocket.ErrCloseSent\<close>, which \<open>guacdToWs\<close> compares against, or any
  other error, told apart by its text.
\<close>

type_synonym bytes = string

datatype go_error = ErrCloseSent | OtherError string

text \<open>The levels of zerolog, with the numbers the library gives them.\<close>

datatype level =
  TraceLevel | DebugLevel | InfoLevel | WarnLevel | ErrorLevel
  | FatalLevel | PanicLevel | NoLevel | Disabled

fun level_num :: "level \<Rightarrow> int" where
  "level_num TraceLevel = -1"
| "level_num DebugLevel = 0"
| "level_num InfoLevel = 1"
| "level_num WarnLevel = 2"
| "level_num ErrorLevel = 3"
| "level_num FatalLevel = 4"
| "level_num PanicLevel = 5"
| "level_num NoLevel = 6"
| "level_num Disabled = 7"

text \<open>
  \<open>bytes.HasPrefix(s, prefix)\<close>: \<open>len(s) >= len(prefix) && s[:len(prefix)] == prefix\<close>.
\<close>

definition HasPrefix :: "bytes \<Rightarrow> bytes \<Rightarrow> bool" where
  "HasPrefix s pre \<longleftrightarrow> length pre \<le> length s \<and> take (length pre) s = pre"

section \<open>Observable calls\<close>

text \<open>
  The pumps and the handler act only through the interfaces they are handed: the tunnel's
  instruction reader and writer, the websocket, the logger, the callbacks. Each call on
  one of them is recorded as an event, with its arguments and with what it returned, in
  the order in which the goroutine makes the calls.
\<close>

datatype field = FErr go_error | FStr string string

type_synonym header = "(string \<times> string list) list"

datatype event =
    EvReadSome "go_error + bytes"
      \<comment> \<open>\<open>guacd.ReadSome()\<close> and its result\<close>
  | EvAvailable bool
      \<comment> \<open>\<open>guacd.Available()\<close> and its result\<close>
  | EvWriteMessage int bytes "go_error option"
      \<comment> \<open>\<open>ws.WriteMessage(messageType, data)\<close> and the error it returned\<close>
  | EvReadMessage "go_error + int \<times> bytes"
      \<comment> \<open>\<open>ws.ReadMessage()\<close>: an error, or a message type and a payload\<close>
  | EvWrite bytes "go_error option"
      \<comment> \<open>\<open>guacd.Write(data)\<close> and the error it returned\<close>
  | EvLog level "field list" string
      \<comment> \<open>\<open>logger.<Level>().Err(..).Str(..).Msg(msg)\<close>\<close>
  | EvUpgrade nat nat header "go_error option"
      \<comment> \<open>\<open>upgrader.Upgrade(w, r, responseHeader)\<close>: the upgrader's read and write buffer
          sizes, the response header handed over, the error returned\<close>
  | EvConnect "go_error option"
      \<comment> \<open>\<open>s.connect(r)\<close> and the error it returned\<close>
  | EvConnectWs "go_error option"
      \<comment> \<open>\<open>s.connectWs(ws, r)\<close> and the error it returned\<close>
  | EvOnConnect string
  | EvOnConnectWs string
  | EvOnDisconnect string
  | EvOnDisconnectWs string
      \<comment> \<open>the four callbacks, with the connection id they are given\<close>
  | EvAcquireWriter
  | EvAcquireReader
  | EvReleaseWriter
  | EvReleaseReader
  | EvGoWsToGuacd
      \<comment> \<open>\<open>go wsToGuacd(s.logger, ws, writer)\<close>: the inbound pump is started\<close>
  | EvTunnelClose "go_error option"
  | EvWsClose "go_error option"

text \<open>
  How a goroutine leaves a function of the model: it returns, it is still waiting inside
  a blocking read because the peer has sent nothing more, or it panics.
\<close>

datatype outcome = Returned | BlockedInRead | Panicked

text \<open>
  The state a pump threads through its loop: the errors that the coming writes on its
  output side will return (once that list is used up every write succeeds), and the calls
  made so far.
\<close>

record io_state =
  wres :: "go_error option list"
  trace :: "event list"

definition emit :: "event \<Rightarrow> 'a io_state_scheme \<Rightarrow> 'a io_state_scheme" where
  "emit ev st = st\<lparr>trace := trace st @ [ev]\<rparr>"

text \<open>The error that the next write will return.\<close>

definition next_result :: "'a io_state_scheme \<Rightarrow> go_error option" where
  "next_result st = (case wres st of [] \<Rightarrow> None | r # _ \<Rightarrow> r)"

section \<open>The outbound pump: \<open>guacdToWs\<close>\<close>

text \<open>
  The instruction reader is scripted: the \<open>k\<close>-th element says what the \<open>k\<close>-th call of
  \<open>ReadSome\<close> returns, and, for an instruction, what \<open>Available\<close> answers when it is
  asked after that read. When the script is used up the next \<open>ReadSome\<close> does not return.
\<close>

datatype read_event = ReadErr go_error | ReadOk bytes bool

record pump_state = io_state +
  buf :: bytes

text \<open>\<open>ws.WriteMessage(mt, data)\<close> against the scripted websocket.\<close>

definition WriteMessage ::
  "int \<Rightarrow> bytes \<Rightarrow> 'a io_state_scheme \<Rightarrow> go_error option \<times> 'a io_state_scheme" where
  "WriteMessage mt data st =
     (case wres st of
        [] \<Rightarrow> (None, emit (EvWriteMessage mt data None) st)
      | r # rs \<Rightarrow> (r, emit (EvWriteMessage mt data r) (st\<lparr>wres := rs\<rparr>)))"

text \<open>
  \<open>buf.Write(ins)\<close> on a \<open>bytes.Buffer\<close> appends and always returns a nil error.
\<close>

definition buf_Write :: "bytes \<Rightarrow> pump_state \<Rightarrow> go_error option \<times> pump_state" where
  "buf_Write ins st = (None, st\<lparr>buf := buf st @ ins\<rparr>)"

text \<open>
  The \<open>for\<close> loop of \<open>guacdToWs\<close>. \<open>M\<close> is the constant \<open>MaxGuacMessage\<close> and \<open>opc\<close> the
  byte string \<open>internalOpcodeIns\<close>; both are declared outside the files at hand.
\<close>

fun guacdToWs_loop ::
  "nat \<Rightarrow> bytes \<Rightarrow> read_event list \<Rightarrow> pump_state \<Rightarrow> outcome \<times> pump_state" where
  "guacdToWs_loop M opc [] st = (BlockedInRead, st)"
| "guacdToWs_loop M opc (ReadErr e # rest) st =
     (Returned,
      emit (EvLog WarnLevel [FErr e]
              ''[guacd -> Browser] guacd disconnected or error reading from guacd'')
        (emit (EvReadSome (Inl e)) st))"
| "guacdToWs_loop M opc (ReadOk ins avail # rest) st =
     (let st0 = emit (EvReadSome (Inr ins)) st in
      if HasPrefix ins opc then guacdToWs_loop M opc rest st0
      else
        (case buf_Write ins st0 of
           (Some e, st1) \<Rightarrow>
             (Returned,
              emit (EvLog ErrorLevel [FErr e]
                      ''[guacd -> Browser] Failed to buffer message from guacd'') st1)
         | (None, st1) \<Rightarrow>
             (let st2 = emit (EvAvailable avail) st1 in
              if \<not> avail \<or> M \<le> length (buf st2) then
                (case WriteMessage 1 (buf st2) st2 of
                   (Some e, st3) \<Rightarrow>
                     if e = ErrCloseSent then
                       (Returned,
                        emit (EvLog DebugLevel []
                                ''[guacd -> Browser] websocket already closed (clean close)'') st3)
                     else
                       (Returned,
                        emit (EvLog WarnLevel [FErr e]
                                ''[guacd -> Browser] Failed to write to WebSocket (browser may have disconnected)'') st3)
                 | (None, st3) \<Rightarrow> guacdToWs_loop M opc rest (st3\<lparr>buf := []\<rparr>))
              else guacdToWs_loop M opc rest st2)))"

text \<open>\<open>guacdToWs\<close>: a fresh, empty accumulation buffer, then the loop.\<close>

definition guacdToWs ::
  "nat \<Rightarrow> bytes \<Rightarrow> read_event list \<Rightarrow> go_error option list \<Rightarrow> outcome \<times> pump_state" where
  "guacdToWs M opc script ws_results =
     guacdToWs_loop M opc script \<lparr>wres = ws_results, trace = [], buf = []\<rparr>"

section \<open>The inbound pump: \<open>wsToGuacd\<close>\<close>

text \<open>
  The websocket is scripted: the \<open>k\<close>-th element is what the \<open>k\<close>-th \<open>ReadMessage\<close>
  returns. \<open>wres\<close> holds the errors of the coming \<open>guacd.Write\<close> calls.
\<close>

datatype ws_read = WsReadErr go_error | WsMsg int bytes

definition guacd_Write :: "bytes \<Rightarrow> io_state \<Rightarrow> go_error option \<times> io_state" where
  "guacd_Write data st =
     (case wres st of
        [] \<Rightarrow> (None, emit (EvWrite data None) st)
      | r # rs \<Rightarrow> (r, emit (EvWrite data r) (st\<lparr>wres := rs\<rparr>)))"

fun wsToGuacd_loop :: "bytes \<Rightarrow> ws_read list \<Rightarrow> io_state \<Rightarrow> outcome \<times> io_state" where
  "wsToGuacd_loop opc [] st = (BlockedInRead, st)"
| "wsToGuacd_loop opc (WsReadErr e # rest) st =
     (Returned,
      emit (EvLog WarnLevel [FErr e]
              ''[Browser -> guacd] Browser disconnected or error reading from WebSocket'')
        (emit (EvLog TraceLevel [FErr e] ''Error reading message from ws'')
           (emit (EvReadMessage (Inl e)) st)))"
| "wsToGuacd_loop opc (WsMsg mt data # rest) st =
     (let st0 = emit (EvReadMessage (Inr (mt, data))) st in
      if HasPrefix data opc then wsToGuacd_loop opc rest st0
      else
        (case guacd_Write data st0 of
           (Some e, st1) \<Rightarrow>
             (Returned,
              emit (EvLog ErrorLevel [FErr e]
                      ''[Browser -> guacd] Failed to write to guacd (guacd may have disconnected)'')
                (emit (EvLog TraceLevel [FErr e] ''Failed writing to guacd'') st1))
         | (None, st1) \<Rightarrow> wsToGuacd_loop opc rest st1))"

definition wsToGuacd ::
  "bytes \<Rightarrow> ws_read list \<Rightarrow> go_error option list \<Rightarrow> outcome \<times> io_state" where
  "wsToGuacd opc script guacd_results =
     wsToGuacd_loop opc script \<lparr>wres = guacd_results, trace = []\<rparr>"

section \<open>The package logger: \<open>logger.go\<close>\<close>

text \<open>
  A \<open>zerolog.Logger\<close> as far as this package uses it: the writer it was created on, its
  level, the key/value pairs of its context in the order they were added, and whether the
  timestamp hook is installed.
\<close>

datatype writer = Discard | Stderr | ConsoleWriterStderr | OtherWriter nat

record logger =
  out :: writer
  lvl :: level
  lcontext :: "(string \<times> string) list"
  timestamp :: bool

text \<open>\<open>zerolog.New(w)\<close>, \<open>l.Level(lvl)\<close>, \<open>l.With().Timestamp().Logger()\<close>.\<close>

definition zerolog_New :: "writer \<Rightarrow> logger" where
  "zerolog_New w = \<lparr>out = w, lvl = TraceLevel, lcontext = [], timestamp = False\<rparr>"

definition Level :: "level \<Rightarrow> logger \<Rightarrow> logger" where
  "Level l lg = lg\<lparr>lvl := l\<rparr>"

definition With_Timestamp :: "logger \<Rightarrow> logger" where
  "With_Timestamp lg = lg\<lparr>timestamp := True\<rparr>"

text \<open>
  \<open>l.UpdateContext(update)\<close> replaces the context of the logger \<open>l\<close> points to by
  \<open>update\<close> of it, unless the logger's level is \<open>Disabled\<close>: a disabled logger keeps its
  context as it is. \<open>c.Str(key, val)\<close> appends one pair.
\<close>

definition Str :: "string \<Rightarrow> string \<Rightarrow> (string \<times> string) list \<Rightarrow> (string \<times> string) list" where
  "Str key val c = c @ [(key, val)]"

definition UpdateContext ::
  "((string \<times> string) list \<Rightarrow> (string \<times> string) list) \<Rightarrow> logger \<Rightarrow> logger" where
  "UpdateContext update lg =
     (if lvl lg = Disabled then lg else lg\<lparr>lcontext := update (lcontext lg)\<rparr>)"

text \<open>
  What a log call writes: an event of level \<open>l\<close> is dropped when \<open>l\<close> is below the
  logger's level, and \<open>io.Discard\<close> drops whatever is written to it. Otherwise the line
  reaches the logger's writer, carrying the logger's context.
\<close>

definition should :: "logger \<Rightarrow> level \<Rightarrow> bool" where
  "should lg l \<longleftrightarrow> level_num (lvl lg) \<le> level_num l"

definition log_output ::
  "logger \<Rightarrow> level \<Rightarrow> field list \<Rightarrow> string
     \<Rightarrow> (writer \<times> level \<times> (string \<times> string) list \<times> field list \<times> string) list" where
  "log_output lg l fs msg =
     (if should lg l \<and> out lg \<noteq> Discard then [(out lg, l, lcontext lg, fs, msg)] else [])"

text \<open>
  Loggers are handed around by pointer, so they live in a store; \<open>globalLogger\<close> is the
  address of the package variable.
\<close>

type_synonym logger_store = "nat \<Rightarrow> logger"

definition globalLogger :: nat where
  "globalLogger = 0"

definition createDefaultLogger :: logger where
  "createDefaultLogger = Level Disabled (zerolog_New Discard)"

text \<open>The store when the package has been initialised: \<open>globalLogger = createDefaultLogger()\<close>.\<close>

definition init_loggers :: "logger_store \<Rightarrow> logger_store" where
  "init_loggers h = h(globalLogger := createDefaultLogger)"

definition SetLogger :: "logger \<Rightarrow> logger_store \<Rightarrow> logger_store" where
  "SetLogger l h = h(globalLogger := l)"

definition SetLogLevel :: "level \<Rightarrow> logger_store \<Rightarrow> logger_store" where
  "SetLogLevel l h = h(globalLogger := Level l (With_Timestamp (zerolog_New Stderr)))"

definition SetLogLevelConsole :: "level \<Rightarrow> logger_store \<Rightarrow> logger_store" where
  "SetLogLevelConsole l h =
     h(globalLogger := Level l (With_Timestamp (zerolog_New ConsoleWriterStderr)))"

definition GetLogger :: "logger_store \<Rightarrow> logger" where
  "GetLogger h = h globalLogger"

section \<open>The websocket server: \<open>ws_server.go\<close>\<close>

text \<open>
  An \<open>http.Request\<close> as far as the handler reads it. \<open>Header.Get(key)\<close> is the first
  value stored under the key, and the empty string when there is none.
\<close>

record request =
  Header :: header
  RemoteAddr :: string

definition Header_Get :: "header \<Rightarrow> string \<Rightarrow> string" where
  "Header_Get h key =
     (case map_of h key of
        None \<Rightarrow> []
      | Some vs \<Rightarrow> (case vs of [] \<Rightarrow> [] | v # _ \<Rightarrow> v))"

text \<open>
  The websocket connection that \<open>Upgrade\<close> returns and the tunnel that the connect
  function returns, each with the behaviour it will show to the handler: the errors of the
  connection's coming writes and of its \<open>Close\<close>; the tunnel's connection id, the script
  of its instruction reader and the error of its \<open>Close\<close>.
\<close>

record conn =
  ws_write_results :: "go_error option list"
  ws_close_result :: "go_error option"

record tunnel =
  ConnectionID :: string
  instructions :: "read_event list"
  tunnel_close_result :: "go_error option"

text \<open>
  The server. A Go function value may be nil, hence the options; of a callback only
  whether it is set matters here, its call is an event.
\<close>

record WebsocketServer =
  connect :: "(request \<Rightarrow> go_error + tunnel) option"
  connectWs :: "(conn \<Rightarrow> request \<Rightarrow> go_error + tunnel) option"
  OnConnect :: bool
  OnDisconnect :: bool
  OnConnectWs :: bool
  OnDisconnectWs :: bool
  logger :: nat

definition NewWebsocketServer ::
  "(request \<Rightarrow> go_error + tunnel) option \<Rightarrow> nat option \<Rightarrow> WebsocketServer" where
  "NewWebsocketServer connect_fn logger_ptr =
     (let serverLogger = (case logger_ptr of None \<Rightarrow> globalLogger | Some p \<Rightarrow> p) in
      \<lparr>connect = connect_fn, connectWs = None,
       OnConnect = False, OnDisconnect = False, OnConnectWs = False, OnDisconnectWs = False,
       logger = serverLogger\<rparr>)"

definition NewWebsocketServerWs ::
  "(conn \<Rightarrow> request \<Rightarrow> go_error + tunnel) option \<Rightarrow> nat option \<Rightarrow> WebsocketServer" where
  "NewWebsocketServerWs connect_fn logger_ptr =
     (let serverLogger = (case logger_ptr of None \<Rightarrow> globalLogger | Some p \<Rightarrow> p) in
      \<lparr>connect = None, connectWs = connect_fn,
       OnConnect = False, OnDisconnect = False, OnConnectWs = False, OnDisconnectWs = False,
       logger = serverLogger\<rparr>)"

definition websocketReadBufferSize :: "nat \<Rightarrow> nat" where
  "websocketReadBufferSize M = M"

definition websocketWriteBufferSize :: "nat \<Rightarrow> nat" where
  "websocketWriteBufferSize M = M * 2"

text \<open>
  Deferred calls are kept on a stack, the last one registered on top, and run from the
  top when the function returns or panics.
\<close>

definition run_deferred :: "event list list \<Rightarrow> event list" where
  "run_deferred ds = concat ds"

definition deferred_ws_Close :: "conn \<Rightarrow> event list" where
  "deferred_ws_Close ws =
     EvWsClose (ws_close_result ws) #
       (case ws_close_result ws of
          None \<Rightarrow> []
        | Some err \<Rightarrow> [EvLog TraceLevel [FErr err] ''Error closing websocket''])"

definition deferred_tunnel_Close :: "tunnel \<Rightarrow> event list" where
  "deferred_tunnel_Close t =
     EvTunnelClose (tunnel_close_result t) #
       (case tunnel_close_result t of
          None \<Rightarrow> []
        | Some err \<Rightarrow> [EvLog TraceLevel [FErr err] ''Error closing tunnel''])"

text \<open>
  The connect step: \<open>s.connect(r)\<close> when \<open>s.connect\<close> is set, \<open>s.connectWs(ws, r)\<close>
  otherwise; calling a nil function panics.
\<close>

definition connect_step ::
  "WebsocketServer \<Rightarrow> conn \<Rightarrow> request
     \<Rightarrow> ((go_error option \<Rightarrow> event) \<times> (go_error + tunnel)) option" where
  "connect_step s ws r =
     (case connect s of
        Some f \<Rightarrow> Some (EvConnect, f r)
      | None \<Rightarrow>
          (case connectWs s of
             Some g \<Rightarrow> Some (EvConnectWs, g ws r)
           | None \<Rightarrow> None))"

text \<open>
  \<open>ServeHTTP\<close>, on the goroutine that accepted the request. \<open>upgrade\<close> is what
  \<open>upgrader.Upgrade\<close> returns. The result is how the handler ends, the calls it made in
  order, and the store of loggers it leaves.
\<close>

definition ServeHTTP ::
  "nat \<Rightarrow> bytes \<Rightarrow> WebsocketServer \<Rightarrow> go_error + conn \<Rightarrow> request \<Rightarrow> logger_store
     \<Rightarrow> outcome \<times> event list \<times> logger_store" where
  "ServeHTTP M opc s upgrade r h =
     (let protocol = Header_Get (Header r) ''Sec-Websocket-Protocol'';
          up = EvUpgrade (websocketReadBufferSize M) (websocketWriteBufferSize M)
                 [(''Sec-Websocket-Protocol'', [protocol])]
      in
      case upgrade of
        Inl err \<Rightarrow>
          (Returned,
           [up (Some err), EvLog ErrorLevel [FErr err] ''failed to upgrade websocket''], h)
      | Inr ws \<Rightarrow>
          (let d1 = [deferred_ws_Close ws];
               t1 = [up None, EvLog TraceLevel [] ''connecting to tunnel'']
           in
           case connect_step s ws r of
             None \<Rightarrow> (Panicked, t1 @ run_deferred d1, h)
           | Some (call, Inl e) \<Rightarrow> (Returned, t1 @ [call (Some e)] @ run_deferred d1, h)
           | Some (call, Inr tunnel) \<Rightarrow>
               (let d2 = deferred_tunnel_Close tunnel # d1;
                    t2 = t1 @ [call None, EvLog TraceLevel [] ''connected to tunnel''];
                    id = ConnectionID tunnel;
                    h' = h(logger s := UpdateContext (Str ''connection_id'' id) (h (logger s)));
                    t3 = t2 @ [EvLog TraceLevel
                                 [FStr ''connection_id'' id, FStr ''remote_addr'' (RemoteAddr r)]
                                 ''websocket connection established''];
                    t4 = t3 @ (if OnConnect s then [EvOnConnect id] else []);
                    t5 = t4 @ (if OnConnectWs s then [EvOnConnectWs id] else []);
                    t6 = t5 @ [EvAcquireWriter, EvAcquireReader];
                    d3 = (if OnDisconnect s then [EvOnDisconnect id] # d2 else d2);
                    d4 = (if OnDisconnectWs s then [EvOnDisconnectWs id] # d3 else d3);
                    d5 = [EvLog TraceLevel [FStr ''connection_id'' id]
                            ''websocket connection closed''] # d4;
                    d6 = [EvReleaseWriter] # d5;
                    d7 = [EvReleaseReader] # d6;
                    t7 = t6 @ [EvGoWsToGuacd];
                    pump = guacdToWs M opc (instructions tunnel) (ws_write_results ws);
                    t8 = t7 @ trace (snd pump)
                in
                case fst pump of
                  Returned \<Rightarrow> (Returned, t8 @ run_deferred d7, h')
                | BlockedInRead \<Rightarrow> (BlockedInRead, t8, h')
                | Panicked \<Rightarrow> (Panicked, t8 @ run_deferred d7, h'))))"

section \<open>Reading a trace\<close>

text \<open>
  The \<open>WriteMessage\<close> calls of a trace in order (message type, payload, error returned), the
  payloads alone, and the payloads of the calls that succeeded.
\<close>

fun ws_calls :: "event list \<Rightarrow> (int \<times> bytes \<times> go_error option) list" where
  "ws_calls [] = []"
| "ws_calls (EvWriteMessage mt d r # tr) = (mt, d, r) # ws_calls tr"
| "ws_calls (_ # tr) = ws_calls tr"

definition ws_msgs :: "event list \<Rightarrow> bytes list" where
  "ws_msgs tr = map (\<lambda>c. fst (snd c)) (ws_calls tr)"

definition ws_sent :: "event list \<Rightarrow> bytes list" where
  "ws_sent tr = map (\<lambda>c. fst (snd c)) (filter (\<lambda>c. snd (snd c) = None) (ws_calls tr))"

text \<open>The instructions that \<open>ReadSome\<close> returned.\<close>

fun ins_read :: "event list \<Rightarrow> bytes list" where
  "ins_read [] = []"
| "ins_read (EvReadSome (Inr ins) # tr) = ins # ins_read tr"
| "ins_read (_ # tr) = ins_read tr"

text \<open>The payloads that \<open>ReadMessage\<close> returned, and the payloads handed to \<open>guacd.Write\<close>.\<close>

fun msgs_read :: "event list \<Rightarrow> bytes list" where
  "msgs_read [] = []"
| "msgs_read (EvReadMessage (Inr (mt, d)) # tr) = d # msgs_read tr"
| "msgs_read (_ # tr) = msgs_read tr"

fun guacd_writes :: "event list \<Rightarrow> bytes list" where
  "guacd_writes [] = []"
| "guacd_writes (EvWrite d r # tr) = d # guacd_writes tr"
| "guacd_writes (_ # tr) = guacd_writes tr"

text \<open>A call that returned an error; a log call.\<close>

fun failed :: "event \<Rightarrow> bool" where
  "failed (EvReadSome (Inl e)) = True"
| "failed (EvWriteMessage mt d (Some e)) = True"
| "failed (EvReadMessage (Inl e)) = True"
| "failed (EvWrite d (Some e)) = True"
| "failed _ = False"

fun is_log :: "event \<Rightarrow> bool" where
  "is_log (EvLog l fs msg) = True"
| "is_log _ = False"

text \<open>A scripted read that returns an error.\<close>

fun read_fails :: "read_event \<Rightarrow> bool" where
  "read_fails (ReadErr e) = True"
| "read_fails (ReadOk ins avail) = False"

fun ws_read_fails :: "ws_read \<Rightarrow> bool" where
  "ws_read_fails (WsReadErr e) = True"
| "ws_read_fails (WsMsg mt d) = False"

text \<open>What a trace holds after its first failed call.\<close>

definition after_first_failure :: "event list \<Rightarrow> event list" where
  "after_first_failure tr = drop 1 (dropWhile (\<lambda>ev. \<not> failed ev) tr)"

text \<open>
  How a pump may stop: it never panics; it has returned exactly when a call of its trace
  failed; at most one call failed; after the failed call there are log calls only. For the
  outbound pump, moreover, the log line that follows a failed write.
\<close>

definition out_stop :: "outcome \<times> pump_state \<Rightarrow> bool" where
  "out_stop r \<longleftrightarrow>
     fst r \<noteq> Panicked
     \<and> (fst r = Returned) = list_ex failed (trace (snd r))
     \<and> length (filter failed (trace (snd r))) \<le> 1
     \<and> list_all is_log (after_first_failure (trace (snd r)))
     \<and> (\<forall>mt d e. EvWriteMessage mt d (Some e) \<in> set (trace (snd r)) \<longrightarrow>
           after_first_failure (trace (snd r)) =
             [if e = ErrCloseSent
              then EvLog DebugLevel []
                     ''[guacd -> Browser] websocket already closed (clean close)''
              else EvLog WarnLevel [FErr e]
                     ''[guacd -> Browser] Failed to write to WebSocket (browser may have disconnected)''])"

definition in_stop :: "outcome \<times> io_state \<Rightarrow> bool" where
  "in_stop r \<longleftrightarrow>
     fst r \<noteq> Panicked
     \<and> (fst r = Returned) = list_ex failed (trace (snd r))
     \<and> length (filter failed (trace (snd r))) \<le> 1
     \<and> list_all is_log (after_first_failure (trace (snd r)))"

text \<open>
  The batching policy in the words of the design: the instructions that are not dropped
  are appended to an accumulator, and after each append the accumulator is sent whole and
  emptied if no further instruction is available or it has reached the cap.
\<close>

fun spec_batches :: "nat \<Rightarrow> bytes \<Rightarrow> (bytes \<times> bool) list \<Rightarrow> bytes list" where
  "spec_batches M acc [] = []"
| "spec_batches M acc ((ins, avail) # later) =
     (if \<not> avail \<or> M \<le> length (acc @ ins) then (acc @ ins) # spec_batches M [] later
      else spec_batches M (acc @ ins) later)"

text \<open>The instructions of a script up to its first read error, without the dropped ones.\<close>

fun kept :: "bytes \<Rightarrow> read_event list \<Rightarrow> (bytes \<times> bool) list" where
  "kept opc [] = []"
| "kept opc (ReadErr e # rest) = []"
| "kept opc (ReadOk ins avail # rest) =
     (if HasPrefix ins opc then kept opc rest else (ins, avail) # kept opc rest)"

text \<open>
  What a script holds before its first read error: the instructions of a reader's script,
  the payloads of a websocket's script.
\<close>

fun instrs :: "read_event list \<Rightarrow> bytes list" where
  "instrs [] = []"
| "instrs (ReadErr e # rest) = []"
| "instrs (ReadOk ins avail # rest) = ins # instrs rest"


text \<open>Two websocket scripts that differ at most in the message types.\<close>

fun same_payloads :: "ws_read list \<Rightarrow> ws_read list \<Rightarrow> bool" where
  "same_payloads [] [] = True"
| "same_payloads (WsReadErr e # xs) (WsReadErr e' # ys) = (e = e' \<and> same_payloads xs ys)"
| "same_payloads (WsMsg mt d # xs) (WsMsg mt' d' # ys) = (d = d' \<and> same_payloads xs ys)"
| "same_payloads _ _ = False"

text \<open>A trace with the message types of the messages read blanked out.\<close>

fun untyped :: "event \<Rightarrow> event" where
  "untyped (EvReadMessage (Inr (mt, d))) = EvReadMessage (Inr (0, d))"
| "untyped ev = ev"

text \<open>
  The lifecycle calls of the handler: the callbacks, the acquiring and releasing of the
  tunnel's handles, the start of the inbound pump, the closing of the tunnel.
\<close>

fun is_lifecycle :: "event \<Rightarrow> bool" where
  "is_lifecycle (EvOnConnect i) = True"
| "is_lifecycle (EvOnConnectWs i) = True"
| "is_lifecycle (EvOnDisconnect i) = True"
| "is_lifecycle (EvOnDisconnectWs i) = True"
| "is_lifecycle EvAcquireWriter = True"
| "is_lifecycle EvAcquireReader = True"
| "is_lifecycle EvReleaseWriter = True"
| "is_lifecycle EvReleaseReader = True"
| "is_lifecycle EvGoWsToGuacd = True"
| "is_lifecycle (EvTunnelClose r) = True"
| "is_lifecycle _ = False"

definition lifecycle :: "event list \<Rightarrow> event list" where
  "lifecycle tr = filter is_lifecycle tr"

section \<open>Projections distribute over the concatenation of traces\<close>

lemma ws_calls_append [simp]: "ws_calls (xs @ ys) = ws_calls xs @ ws_calls ys"
  by (induction xs rule: ws_calls.induct) simp_all

lemma ws_msgs_append [simp]: "ws_msgs (xs @ ys) = ws_msgs xs @ ws_msgs ys"
  by (simp add: ws_msgs_def)

lemma ws_sent_append [simp]: "ws_sent (xs @ ys) = ws_sent xs @ ws_sent ys"
  by (simp add: ws_sent_def)

lemma ins_read_append [simp]: "ins_read (xs @ ys) = ins_read xs @ ins_read ys"
  by (induction xs rule: ins_read.induct) simp_all

lemma msgs_read_append [simp]: "msgs_read (xs @ ys) = msgs_read xs @ msgs_read ys"
  by (induction xs rule: msgs_read.induct) simp_all

lemma guacd_writes_append [simp]: "guacd_writes (xs @ ys) = guacd_writes xs @ guacd_writes ys"
  by (induction xs rule: guacd_writes.induct) simp_all

section \<open>One iteration of the outbound loop\<close>

lemma loop_drop:
  "HasPrefix ins opc \<Longrightarrow>
   guacdToWs_loop M opc (ReadOk ins avail # rest) st =
     guacdToWs_loop M opc rest (emit (EvReadSome (Inr ins)) st)"
  by (simp add: Let_def)

lemma loop_hold:
  "\<not> HasPrefix ins opc \<Longrightarrow> avail \<Longrightarrow> length (buf st @ ins) < M \<Longrightarrow>
   guacdToWs_loop M opc (ReadOk ins avail # rest) st =
     guacdToWs_loop M opc rest
       (st\<lparr>trace := trace st @ [EvReadSome (Inr ins), EvAvailable True], buf := buf st @ ins\<rparr>)"
  by (cases st) (simp add: Let_def buf_Write_def emit_def)

lemma loop_flush_ok:
  "\<not> HasPrefix ins opc \<Longrightarrow> \<not> avail \<or> M \<le> length (buf st @ ins) \<Longrightarrow>
   wres st = [] \<or> (\<exists>rs. wres st = None # rs) \<Longrightarrow>
   guacdToWs_loop M opc (ReadOk ins avail # rest) st =
     guacdToWs_loop M opc rest
       (st\<lparr>wres := tl (wres st),
           trace := trace st @ [EvReadSome (Inr ins), EvAvailable avail,
                                EvWriteMessage 1 (buf st @ ins) None],
           buf := []\<rparr>)"
  by (cases st) (auto simp add: Let_def buf_Write_def emit_def WriteMessage_def)

lemma loop_flush_fail:
  "\<not> HasPrefix ins opc \<Longrightarrow> \<not> avail \<or> M \<le> length (buf st @ ins) \<Longrightarrow>
   wres st = Some e # rs \<Longrightarrow>
   guacdToWs_loop M opc (ReadOk ins avail # rest) st =
     (Returned,
       st\<lparr>wres := rs,
           trace := trace st @ [EvReadSome (Inr ins), EvAvailable avail,
                                EvWriteMessage 1 (buf st @ ins) (Some e),
                                if e = ErrCloseSent
                                then EvLog DebugLevel []
                                   ''[guacd -> Browser] websocket already closed (clean close)''
                                else EvLog WarnLevel [FErr e]
                                   ''[guacd -> Browser] Failed to write to WebSocket (browser may have disconnected)''],
           buf := buf st @ ins\<rparr>)"
  by (cases st) (auto simp add: Let_def buf_Write_def emit_def WriteMessage_def)

lemma loop_cases:
  obtains (drop) "HasPrefix ins opc"
  | (hold) "\<not> HasPrefix ins opc" "avail" "length (buf st @ ins) < M"
  | (flush_ok) "\<not> HasPrefix ins opc" "\<not> avail \<or> M \<le> length (buf st @ ins)" 
       "wres st = [] \<or> (\<exists>rs. wres st = None # rs)"
  | (flush_fail) e rs where "\<not> HasPrefix ins opc" "\<not> avail \<or> M \<le> length (buf st @ ins)" 
       "wres st = Some e # rs"
proof (cases "wres st")
  case Nil
  then show ?thesis using drop hold flush_ok by (cases "HasPrefix ins opc"; cases avail; cases "length (buf st @ ins) < M") auto
next
  case (Cons r rs)
  then show ?thesis using drop hold flush_ok flush_fail
    by (cases "HasPrefix ins opc"; cases avail; cases "length (buf st @ ins) < M"; cases r) auto
qed

lemma refine:
  "\<forall>e \<in> set script. \<forall>x. e \<noteq> ReadErr x \<Longrightarrow> \<forall>r \<in> set (wres st). r = None \<Longrightarrow>
   ws_msgs (trace (snd (guacdToWs_loop M opc script st))) =
     ws_msgs (trace st) @ spec_batches M (buf st) (kept opc script)"
proof (induction script arbitrary: st)
  case Nil
  then show ?case by simp
next
  case (Cons a script)
  show ?case
  proof (cases a)
    case (ReadErr x1)
    then show ?thesis using Cons.prems by simp
  next
    case (ReadOk ins avail)
    have w: "\<forall>r \<in> set (tl (wres st)). r = None" using Cons.prems(2) by (cases "wres st") auto
    show ?thesis
    proof (cases rule: loop_cases[where ins=ins and opc=opc and avail=avail and st=st and M=M])
      case drop
      then show ?thesis using Cons ReadOk by (simp add: loop_drop emit_def ws_msgs_def del: guacdToWs_loop.simps)
    next
      case hold
      then show ?thesis using Cons ReadOk by (simp add: loop_hold ws_msgs_def del: guacdToWs_loop.simps)
    next
      case flush_ok
      then show ?thesis using Cons.IH[of "st\<lparr>wres := tl (wres st),
           trace := trace st @ [EvReadSome (Inr ins), EvAvailable avail,
                                EvWriteMessage 1 (buf st @ ins) None],
           buf := []\<rparr>"] Cons.prems ReadOk w
        by (auto simp add: loop_flush_ok ws_msgs_def simp del: guacdToWs_loop.simps)
    next
      case (flush_fail e rs)
      then show ?thesis using Cons.prems by auto
    qed
  qed
qed


lemma loop_trace_ext:
  "\<exists>new. trace (snd (guacdToWs_loop M opc script st)) = trace st @ new"
proof (induction script arbitrary: st)
  case Nil
  then show ?case by simp
next
  case (Cons a script)
  show ?case
  proof (cases a)
    case (ReadErr e)
    then show ?thesis by (simp add: emit_def)
  next
    case (ReadOk ins avail)
    show ?thesis
    proof (cases rule: loop_cases[where ins=ins and opc=opc and avail=avail and st=st and M=M])
      case drop
      show ?thesis using Cons.IH[of "emit (EvReadSome (Inr ins)) st"]
        unfolding ReadOk loop_drop[OF drop] by (auto simp: emit_def)
    next
      case hold
      show ?thesis
        using Cons.IH[of "st\<lparr>trace := trace st @ [EvReadSome (Inr ins), EvAvailable True],
                             buf := buf st @ ins\<rparr>"]
        unfolding ReadOk loop_hold[OF hold] by auto
    next
      case flush_ok
      show ?thesis
        using Cons.IH[of "st\<lparr>wres := tl (wres st),
           trace := trace st @ [EvReadSome (Inr ins), EvAvailable avail,
                                EvWriteMessage 1 (buf st @ ins) None],
           buf := []\<rparr>"]
        unfolding ReadOk loop_flush_ok[OF flush_ok] by auto
    next
      case (flush_fail e rs)
      show ?thesis unfolding ReadOk loop_flush_fail[OF flush_fail] by simp
    qed
  qed
qed

lemma one_iteration:
  assumes "\<not> HasPrefix ins opc"
  shows "ws_calls (trace (snd (guacdToWs_loop M opc [ReadOk ins avail] st))) =
     ws_calls (trace st) @
       (if \<not> avail \<or> M \<le> length (buf st @ ins) then [(1, buf st @ ins, next_result st)] else [])"
proof (cases rule: loop_cases[where ins=ins and opc=opc and avail=avail and st=st and M=M])
  case drop
  then show ?thesis using assms by simp
next
  case hold
  show ?thesis unfolding loop_hold[OF hold] using hold by simp
next
  case flush_ok
  show ?thesis unfolding loop_flush_ok[OF flush_ok] using flush_ok
    by (auto simp: next_result_def)
next
  case (flush_fail e rs)
  show ?thesis unfolding loop_flush_fail[OF flush_fail] using flush_fail
    by (auto simp: next_result_def)
qed

lemma big_instruction:
  assumes "\<not> HasPrefix ins opc" "M \<le> length ins"
  shows "take (Suc (length (ws_calls (trace st))))
           (ws_calls (trace (snd (guacdToWs_loop M opc (ReadOk ins avail # rest) st)))) =
         ws_calls (trace st) @ [(1, buf st @ ins, next_result st)]"
proof (cases rule: loop_cases[where ins=ins and opc=opc and avail=avail and st=st and M=M])
  case drop
  then show ?thesis using assms by simp
next
  case hold
  then show ?thesis using assms by simp
next
  case flush_ok
  obtain new where n: "trace (snd (guacdToWs_loop M opc rest (st\<lparr>wres := tl (wres st),
           trace := trace st @ [EvReadSome (Inr ins), EvAvailable avail,
                                EvWriteMessage 1 (buf st @ ins) None],
           buf := []\<rparr>))) = (trace st @ [EvReadSome (Inr ins), EvAvailable avail,
                                EvWriteMessage 1 (buf st @ ins) None]) @ new"
    using loop_trace_ext[of M opc rest "st\<lparr>wres := tl (wres st),
           trace := trace st @ [EvReadSome (Inr ins), EvAvailable avail,
                                EvWriteMessage 1 (buf st @ ins) None],
           buf := []\<rparr>"] by auto
  show ?thesis unfolding loop_flush_ok[OF flush_ok] n using flush_ok
    by (auto simp: next_result_def)
next
  case (flush_fail e rs)
  show ?thesis unfolding loop_flush_fail[OF flush_fail] using flush_fail
    by (auto simp: next_result_def)
qed

lemma hold_all:
  "\<forall>x\<in>set xs. \<not> HasPrefix x opc \<Longrightarrow> length (buf st @ concat xs) < M \<Longrightarrow>
   guacdToWs_loop M opc (map (\<lambda>x. ReadOk x True) xs @ more_script) st =
     guacdToWs_loop M opc more_script
       (st\<lparr>trace := trace st @ concat (map (\<lambda>x. [EvReadSome (Inr x), EvAvailable True]) xs),
           buf := buf st @ concat xs\<rparr>)"
proof (induction xs arbitrary: st)
  case Nil
  then show ?case by simp
next
  case (Cons x xs)
  have h: "\<not> HasPrefix x opc" "True" "length (buf st @ x) < M" using Cons.prems by auto
  show ?case
    using Cons.IH[of "st\<lparr>trace := trace st @ [EvReadSome (Inr x), EvAvailable True],
                             buf := buf st @ x\<rparr>"] Cons.prems
    by (simp add: loop_hold[OF h] del: guacdToWs_loop.simps)
qed

lemma small_batch:
  assumes "\<forall>x\<in>set xs. \<not> HasPrefix x opc" "\<not> HasPrefix y opc" "length (concat xs) < M"
  shows "ws_calls (trace (snd (guacdToWs M opc (map (\<lambda>x. ReadOk x True) xs @ [ReadOk y False]) rs)))
           = [(1, concat xs @ y, case rs of [] \<Rightarrow> None | r # _ \<Rightarrow> r)]"
proof -
  have nolog: "ws_calls (concat (map (\<lambda>x. [EvReadSome (Inr x), EvAvailable True]) xs)) = []"
    by (induction xs) auto
  show ?thesis
    unfolding guacdToWs_def
    using assms nolog
    by (simp add: hold_all one_iteration next_result_def del: guacdToWs_loop.simps)
qed


section \<open>Invariant rules for the two loops\<close>

lemma loop_rule:
  assumes init: "I st"
    and instr: "\<And>ins avail. ReadOk ins avail \<in> set script \<Longrightarrow> R ins"
    and blocked: "\<And>st. I st \<Longrightarrow> Q (BlockedInRead, st)"
    and read_err: "\<And>st e. I st \<Longrightarrow>
        Q (Returned, emit (EvLog WarnLevel [FErr e]
              ''[guacd -> Browser] guacd disconnected or error reading from guacd'')
              (emit (EvReadSome (Inl e)) st))"
    and dropped: "\<And>st ins. I st \<Longrightarrow> HasPrefix ins opc \<Longrightarrow> I (emit (EvReadSome (Inr ins)) st)"
    and held: "\<And>st ins. I st \<Longrightarrow> R ins \<Longrightarrow> \<not> HasPrefix ins opc \<Longrightarrow> length (buf st @ ins) < M \<Longrightarrow>
        I (st\<lparr>trace := trace st @ [EvReadSome (Inr ins), EvAvailable True],
             buf := buf st @ ins\<rparr>)"
    and flushed: "\<And>st ins avail. I st \<Longrightarrow> R ins \<Longrightarrow> \<not> HasPrefix ins opc \<Longrightarrow>
        \<not> avail \<or> M \<le> length (buf st @ ins) \<Longrightarrow> next_result st = None \<Longrightarrow>
        I (st\<lparr>wres := tl (wres st),
             trace := trace st @ [EvReadSome (Inr ins), EvAvailable avail,
                                  EvWriteMessage 1 (buf st @ ins) None],
             buf := []\<rparr>)"
    and write_err: "\<And>st ins avail e rs. I st \<Longrightarrow> R ins \<Longrightarrow> \<not> HasPrefix ins opc \<Longrightarrow>
        \<not> avail \<or> M \<le> length (buf st @ ins) \<Longrightarrow> wres st = Some e # rs \<Longrightarrow>
        Q (Returned,
           st\<lparr>wres := rs,
               trace := trace st @ [EvReadSome (Inr ins), EvAvailable avail,
                                EvWriteMessage 1 (buf st @ ins) (Some e),
                                if e = ErrCloseSent
                                then EvLog DebugLevel []
                                   ''[guacd -> Browser] websocket already closed (clean close)''
                                else EvLog WarnLevel [FErr e]
                                   ''[guacd -> Browser] Failed to write to WebSocket (browser may have disconnected)''],
               buf := buf st @ ins\<rparr>)"
  shows "Q (guacdToWs_loop M opc script st)"
  using init instr
proof (induction script arbitrary: st)
  case Nil
  then show ?case using blocked by simp
next
  case (Cons a script)
  show ?case
  proof (cases a)
    case (ReadErr e)
    then show ?thesis using read_err[OF Cons.prems(1)] by simp
  next
    case (ReadOk ins avail)
    have r: "R ins" using Cons.prems(2)[of ins avail] ReadOk by simp
    have later: "\<And>i b. ReadOk i b \<in> set script \<Longrightarrow> R i"
    proof -
      fix i b
      assume "ReadOk i b \<in> set script"
      then have "ReadOk i b \<in> set (a # script)" by simp
      then show "R i" by (rule Cons.prems(2))
    qed
    show ?thesis
    proof (cases rule: loop_cases[where ins=ins and opc=opc and avail=avail and st=st and M=M])
      case drop
      show ?thesis unfolding ReadOk loop_drop[OF drop]
        by (rule Cons.IH[OF dropped[OF Cons.prems(1) drop] later])
    next
      case hold
      show ?thesis unfolding ReadOk loop_hold[OF hold]
        by (rule Cons.IH[OF held[OF Cons.prems(1) r hold(1) hold(3)] later])
    next
      case flush_ok
      have n: "next_result st = None" using flush_ok(3) by (auto simp: next_result_def)
      show ?thesis unfolding ReadOk loop_flush_ok[OF flush_ok]
        by (rule Cons.IH[OF flushed[OF Cons.prems(1) r flush_ok(1) flush_ok(2) n] later])
    next
      case (flush_fail e rs)
      show ?thesis unfolding ReadOk loop_flush_fail[OF flush_fail]
        by (rule write_err[OF Cons.prems(1) r flush_fail])
    qed
  qed
qed

lemma guacd_Write_cases:
  obtains (ok) "next_result st = None"
      "guacd_Write data st = (None, st\<lparr>wres := tl (wres st), trace := trace st @ [EvWrite data None]\<rparr>)"
  | (err) e rs where "wres st = Some e # rs"
      "guacd_Write data st = (Some e, st\<lparr>wres := rs, trace := trace st @ [EvWrite data (Some e)]\<rparr>)"
proof (cases "wres st")
  case Nil
  then show ?thesis using ok by (cases st) (simp add: guacd_Write_def emit_def next_result_def)
next
  case (Cons r rs)
  then show ?thesis using ok err by (cases st; cases r) (simp_all add: guacd_Write_def emit_def next_result_def)
qed

lemma in_loop_rule:
  assumes init: "I st"
    and blocked: "\<And>st. I st \<Longrightarrow> Q (BlockedInRead, st)"
    and read_err: "\<And>st e. I st \<Longrightarrow>
        Q (Returned, 
           st\<lparr>trace := trace st @ [EvReadMessage (Inl e),
                 EvLog TraceLevel [FErr e] ''Error reading message from ws'',
                 EvLog WarnLevel [FErr e]
                   ''[Browser -> guacd] Browser disconnected or error reading from WebSocket'']\<rparr>)"
    and dropped: "\<And>st mt data. I st \<Longrightarrow> HasPrefix data opc \<Longrightarrow>
        I (st\<lparr>trace := trace st @ [EvReadMessage (Inr (mt, data))]\<rparr>)"
    and written: "\<And>st mt data. I st \<Longrightarrow> \<not> HasPrefix data opc \<Longrightarrow> next_result st = None \<Longrightarrow>
        I (st\<lparr>wres := tl (wres st),
             trace := trace st @ [EvReadMessage (Inr (mt, data)), EvWrite data None]\<rparr>)"
    and write_err: "\<And>st mt data e rs. I st \<Longrightarrow> \<not> HasPrefix data opc \<Longrightarrow> wres st = Some e # rs \<Longrightarrow>
        Q (Returned,
           st\<lparr>wres := rs,
               trace := trace st @ [EvReadMessage (Inr (mt, data)), EvWrite data (Some e),
                 EvLog TraceLevel [FErr e] ''Failed writing to guacd'',
                 EvLog ErrorLevel [FErr e]
                   ''[Browser -> guacd] Failed to write to guacd (guacd may have disconnected)'']\<rparr>)"
  shows "Q (wsToGuacd_loop opc script st)"
  using init
proof (induction script arbitrary: st)
  case Nil
  then show ?case using blocked by simp
next
  case (Cons a script)
  show ?case
  proof (cases a)
    case (WsReadErr e)
    then show ?thesis using read_err[OF Cons.prems, of e] by (simp add: emit_def)
  next
    case (WsMsg mt data)
    show ?thesis
    proof (cases "HasPrefix data opc")
      case True
      then show ?thesis using Cons.IH[OF dropped[OF Cons.prems True, of mt]] WsMsg
        by (simp add: emit_def)
    next
      case False
      show ?thesis
      proof (cases rule: guacd_Write_cases[where st="emit (EvReadMessage (Inr (mt, data))) st" and data=data])
        case ok
        have n: "next_result st = None" using ok(1) by (simp add: next_result_def emit_def)
        show ?thesis using Cons.IH[OF written[OF Cons.prems False n, of mt]] WsMsg False ok(2)
          by (simp add: emit_def)
      next
        case (err e rs)
        have w: "wres st = Some e # rs" using err(1) by (simp add: emit_def)
        show ?thesis using write_err[OF Cons.prems False w, of mt] WsMsg False err(2)
          by (simp add: emit_def)
      qed
    qed
  qed
qed

section \<open>The batching policy of the outbound pump\<close>

text \<open>
  Claim C1. In \<open>guacdToWs\<close>, after an instruction that is not dropped has been appended to
  the accumulation buffer, the whole buffer goes out in one \<open>WriteMessage\<close> call exactly when
  \<open>Available()\<close> is false or the buffer has reached \<open>MaxGuacMessage\<close> bytes. Four facts:
  one iteration, started in any state, makes the call under that condition and no call
  otherwise; over a whole run without errors the messages are those of the policy as the
  design words it (\<open>spec_batches\<close>); instructions that are all available at once and stay
  below the cap before the last one go out as one message, in order; and an instruction that
  alone meets the cap is written right after it is read, whatever \<open>Available()\<close> says and
  whatever follows.
\<close>

theorem guacdToWs_flush_policy:
  "(\<not> HasPrefix ins opc \<longrightarrow>
      ws_calls (trace (snd (guacdToWs_loop M opc [ReadOk ins avail] st))) =
        ws_calls (trace st) @
          (if \<not> avail \<or> M \<le> length (buf st @ ins)
           then [(1, buf st @ ins, next_result st)] else []))
   \<and> ((\<forall>e\<in>set script. \<forall>x. e \<noteq> ReadErr x) \<and> (\<forall>r\<in>set rs. r = None) \<longrightarrow>
      ws_msgs (trace (snd (guacdToWs M opc script rs))) = spec_batches M [] (kept opc script))
   \<and> ((\<forall>x\<in>set xs. \<not> HasPrefix x opc) \<and> \<not> HasPrefix y opc \<and> length (concat xs) < M \<longrightarrow>
      ws_calls (trace (snd (guacdToWs M opc (map (\<lambda>x. ReadOk x True) xs @ [ReadOk y False]) rs)))
        = [(1, concat xs @ y, case rs of [] \<Rightarrow> None | r # _ \<Rightarrow> r)])
   \<and> (\<not> HasPrefix ins opc \<and> M \<le> length ins \<longrightarrow>
      take (Suc (length (ws_calls (trace st))))
        (ws_calls (trace (snd (guacdToWs_loop M opc (ReadOk ins avail # rest) st)))) =
      ws_calls (trace st) @ [(1, buf st @ ins, next_result st)])"
proof (intro conjI impI)
  assume "\<not> HasPrefix ins opc"
  then show "ws_calls (trace (snd (guacdToWs_loop M opc [ReadOk ins avail] st))) =
        ws_calls (trace st) @
          (if \<not> avail \<or> M \<le> length (buf st @ ins)
           then [(1, buf st @ ins, next_result st)] else [])"
    by (rule one_iteration)
next
  assume "(\<forall>e\<in>set script. \<forall>x. e \<noteq> ReadErr x) \<and> (\<forall>r\<in>set rs. r = None)"
  then show "ws_msgs (trace (snd (guacdToWs M opc script rs))) = spec_batches M [] (kept opc script)"
    unfolding guacdToWs_def
    using refine[of script "\<lparr>wres = rs, trace = [], buf = []\<rparr>" M opc]
    by (simp add: ws_msgs_def)
next
  assume "(\<forall>x\<in>set xs. \<not> HasPrefix x opc) \<and> \<not> HasPrefix y opc \<and> length (concat xs) < M"
  then show "ws_calls (trace (snd (guacdToWs M opc (map (\<lambda>x. ReadOk x True) xs @ [ReadOk y False]) rs)))
        = [(1, concat xs @ y, case rs of [] \<Rightarrow> None | r # _ \<Rightarrow> r)]"
    by (intro small_batch) auto
next
  assume "\<not> HasPrefix ins opc \<and> M \<le> length ins"
  then have a: "\<not> HasPrefix ins opc" and b: "M \<le> length ins" by auto
  show "take (Suc (length (ws_calls (trace st))))
        (ws_calls (trace (snd (guacdToWs_loop M opc (ReadOk ins avail # rest) st)))) =
      ws_calls (trace st) @ [(1, buf st @ ins, next_result st)]"
    by (rule big_instruction[OF a b])
qed

theorem guacdToWs_flush_policy_witness:
  "\<not> HasPrefix ''4.size,1.0,4.1024,3.768;'' ''0.''
   \<and> list_all (\<lambda>e. \<forall>x. e \<noteq> ReadErr x)
         [ReadOk ''4.sync,1.0;'' True, ReadOk ''0.,4.ping;'' True, ReadOk ''3.nop;'' False]
   \<and> list_all (\<lambda>r. r = None) [None :: go_error option]
   \<and> list_all (\<lambda>x. \<not> HasPrefix x ''0.'') [''4.sync,1.0;'', ''3.nop;'']
   \<and> \<not> HasPrefix ''5.mouse;'' ''0.''
   \<and> length (concat [''4.sync,1.0;'', ''3.nop;'']) < 24
   \<and> 24 \<le> length ''4.size,1.0,4.1024,3.768;''
   \<and> ws_calls (trace (snd (guacdToWs_loop 24 ''0.'' [ReadOk ''4.size,1.0,4.1024,3.768;'' True]
         \<lparr>wres = [], trace = [], buf = ''3.nop;''\<rparr>))) =
        [(1, ''3.nop;4.size,1.0,4.1024,3.768;'', None)]
   \<and> ws_msgs (trace (snd (guacdToWs 24 ''0.''
         [ReadOk ''4.sync,1.0;'' True, ReadOk ''0.,4.ping;'' True, ReadOk ''3.nop;'' False] [None])))
        = [''4.sync,1.0;3.nop;'']
   \<and> ws_calls (trace (snd (guacdToWs 24 ''0.''
         (map (\<lambda>x. ReadOk x True) [''4.sync,1.0;'', ''3.nop;''] @ [ReadOk ''5.mouse;'' False]) [None])))
        = [(1, ''4.sync,1.0;3.nop;5.mouse;'', None)]
   \<and> take (Suc (length (ws_calls (trace \<lparr>wres = [], trace = [], buf = ''3.nop;''\<rparr>))))
        (ws_calls (trace (snd (guacdToWs_loop 24 ''0.''
           (ReadOk ''4.size,1.0,4.1024,3.768;'' True # [ReadOk ''3.nop;'' False])
           \<lparr>wres = [], trace = [], buf = ''3.nop;''\<rparr>)))) =
      [(1, ''3.nop;4.size,1.0,4.1024,3.768;'', None)]"
  using guacdToWs_flush_policy[where ins="''4.size,1.0,4.1024,3.768;''" and opc="''0.''" and M=24
      and avail=True and st="\<lparr>wres = [], trace = [], buf = ''3.nop;''\<rparr>"
      and script="[ReadOk ''4.sync,1.0;'' True, ReadOk ''0.,4.ping;'' True, ReadOk ''3.nop;'' False]"
      and rs="[None]" and xs="[''4.sync,1.0;'', ''3.nop;'']" and y="''5.mouse;''"
      and rest="[ReadOk ''3.nop;'' False]"]
  by (simp add: HasPrefix_def next_result_def)


lemma ws_msgs_Nil [simp]: "ws_msgs [] = []" and ws_sent_Nil [simp]: "ws_sent [] = []"
  by (simp_all add: ws_msgs_def ws_sent_def)

lemma ws_msgs_Cons [simp]:
  "ws_msgs (EvWriteMessage mt d r # tr) = d # ws_msgs tr"
  "ws_msgs (EvReadSome x # tr) = ws_msgs tr"
  "ws_msgs (EvAvailable b # tr) = ws_msgs tr"
  "ws_msgs (EvLog l fs m # tr) = ws_msgs tr"
  by (simp_all add: ws_msgs_def)

lemma ws_sent_Cons [simp]:
  "ws_sent (EvWriteMessage mt d None # tr) = d # ws_sent tr"
  "ws_sent (EvWriteMessage mt d (Some e) # tr) = ws_sent tr"
  "ws_sent (EvReadSome x # tr) = ws_sent tr"
  "ws_sent (EvAvailable b # tr) = ws_sent tr"
  "ws_sent (EvLog l fs m # tr) = ws_sent tr"
  by (simp_all add: ws_sent_def)

section \<open>What the pumps forward\<close>





section \<open>Filtering of the reserved control opcode\<close>




section \<open>The size of a batch\<close>

lemma batch_size_loop:
  assumes "0 < M"
  shows "list_all (\<lambda>i. length i \<le> M) (instrs script) \<Longrightarrow> length (buf st) < M \<Longrightarrow>
     list_all (\<lambda>d. length d < 2 * M) (ws_msgs (trace st)) \<Longrightarrow>
     list_all (\<lambda>d. length d < 2 * M) (ws_msgs (trace (snd (guacdToWs_loop M opc script st))))"
proof (induction script arbitrary: st)
  case Nil
  then show ?case by simp
next
  case (Cons a script)
  show ?case
  proof (cases a)
    case (ReadErr e)
    then show ?thesis using Cons.prems by (simp add: emit_def)
  next
    case (ReadOk ins avail)
    have len: "length ins \<le> M" and later: "list_all (\<lambda>i. length i \<le> M) (instrs script)"
      using Cons.prems(1) ReadOk by simp_all
    show ?thesis
    proof (cases rule: loop_cases[where ins=ins and opc=opc and avail=avail and st=st and M=M])
      case drop
      show ?thesis unfolding ReadOk loop_drop[OF drop]
        using Cons.prems by (intro Cons.IH later) (simp_all add: emit_def)
    next
      case hold
      show ?thesis unfolding ReadOk loop_hold[OF hold]
        using Cons.prems hold by (intro Cons.IH later) simp_all
    next
      case flush_ok
      show ?thesis unfolding ReadOk loop_flush_ok[OF flush_ok]
        using Cons.prems len assms by (intro Cons.IH later) simp_all
    next
      case (flush_fail e rs)
      show ?thesis unfolding ReadOk loop_flush_fail[OF flush_fail]
        using Cons.prems len by simp
    qed
  qed
qed

text \<open>
  Claim C3 says that no message sent by the outbound pump is longer than \<open>MaxGuacMessage\<close>.
  The pump checks the cap only after it has appended, so a buffer just below the cap still
  takes one more instruction. With \<open>MaxGuacMessage = 8192\<close> and the opcode prefix \<open>0.\<close>: a
  \<open>sync\<close> of 11 bytes with more available, then a \<open>blob\<close> of 8187 bytes with nothing more
  available, leave as one message of 8198 bytes.
\<close>

theorem batch_exceeds_cap:
  "ws_msgs (trace (snd (guacdToWs 8192 ''0.''
      [ReadOk ''4.sync,1.0;'' True,
       ReadOk (''4.blob,1.1,8170.'' @ replicate 8170 (CHR ''A'') @ '';'') False] [])))
     = [''4.sync,1.0;'' @ ''4.blob,1.1,8170.'' @ replicate 8170 (CHR ''A'') @ '';'']
   \<and> length (''4.sync,1.0;'' @ ''4.blob,1.1,8170.'' @ replicate 8170 (CHR ''A'') @ '';'') = 8198
   \<and> \<not> list_all (\<lambda>d. length d \<le> 8192)
        (ws_msgs (trace (snd (guacdToWs 8192 ''0.''
          [ReadOk ''4.sync,1.0;'' True,
           ReadOk (''4.blob,1.1,8170.'' @ replicate 8170 (CHR ''A'') @ '';'') False] []))))"
proof -
  have c: "ws_calls (trace (snd (guacdToWs 8192 ''0.''
      (map (\<lambda>x. ReadOk x True) [''4.sync,1.0;''] @
       [ReadOk (''4.blob,1.1,8170.'' @ replicate 8170 (CHR ''A'') @ '';'') False]) [])))
     = [(1, concat [''4.sync,1.0;''] @ (''4.blob,1.1,8170.'' @ replicate 8170 (CHR ''A'') @ '';''),
         case [] of [] \<Rightarrow> None | r # _ \<Rightarrow> r)]"
    by (rule small_batch) (simp_all add: HasPrefix_def)
  then have m: "ws_msgs (trace (snd (guacdToWs 8192 ''0.''
      [ReadOk ''4.sync,1.0;'' True,
       ReadOk (''4.blob,1.1,8170.'' @ replicate 8170 (CHR ''A'') @ '';'') False] [])))
     = [''4.sync,1.0;'' @ ''4.blob,1.1,8170.'' @ replicate 8170 (CHR ''A'') @ '';'']"
    by (simp add: ws_msgs_def)
  show ?thesis unfolding m by simp
qed

text \<open>
  Claim C3 as amended. When \<open>MaxGuacMessage\<close> is positive and no instruction read from the
  tunnel is longer than \<open>MaxGuacMessage\<close>, every payload handed to \<open>WriteMessage\<close> is shorter
  than twice \<open>MaxGuacMessage\<close>: the buffer is below the cap before each append. This is the
  size for which the accumulation buffer and the websocket's write buffer are allocated.
\<close>

theorem batch_below_twice_cap:
  "0 < M \<and> list_all (\<lambda>i. length i \<le> M) (instrs script) \<longrightarrow>
     list_all (\<lambda>d. length d < 2 * M) (ws_msgs (trace (snd (guacdToWs M opc script rs))))"
  unfolding guacdToWs_def
  using batch_size_loop[of M script "\<lparr>wres = rs, trace = [], buf = []\<rparr>" opc] by simp

theorem batch_below_twice_cap_witness:
  "(0::nat) < 8192
   \<and> list_all (\<lambda>i. length i \<le> 8192)
        (instrs [ReadOk ''4.sync,1.0;'' True,
                 ReadOk (''4.blob,1.1,8170.'' @ replicate 8170 (CHR ''A'') @ '';'') False])
   \<and> list_all (\<lambda>d. length d < 2 * 8192)
        (ws_msgs (trace (snd (guacdToWs 8192 ''0.''
          [ReadOk ''4.sync,1.0;'' True,
           ReadOk (''4.blob,1.1,8170.'' @ replicate 8170 (CHR ''A'') @ '';'') False] []))))"
proof -
  have h: "(0::nat) < 8192
     \<and> list_all (\<lambda>i. length i \<le> 8192)
        (instrs [ReadOk ''4.sync,1.0;'' True,
                 ReadOk (''4.blob,1.1,8170.'' @ replicate 8170 (CHR ''A'') @ '';'') False])"
    by simp
  show ?thesis
    using h batch_below_twice_cap[where M=8192 and opc="''0.''" and rs="[]" and
      script="[ReadOk ''4.sync,1.0;'' True,
               ReadOk (''4.blob,1.1,8170.'' @ replicate 8170 (CHR ''A'') @ '';'') False]"]
    by blast
qed

section \<open>Termination of the pumps on the first error\<close>

lemma after_first_failure_skip:
  "list_all (\<lambda>ev. \<not> failed ev) pre \<Longrightarrow>
   after_first_failure (pre @ tr) = after_first_failure tr"
  by (simp add: after_first_failure_def list_all_iff dropWhile_append2)

lemma after_first_failure_Nil [simp]: "after_first_failure [] = []"
  by (simp add: after_first_failure_def)

lemma after_first_failure_Cons [simp]:
  "after_first_failure (ev # tr) = (if failed ev then tr else after_first_failure tr)"
  by (simp add: after_first_failure_def)

lemma after_first_failure_none:
  "list_all (\<lambda>ev. \<not> failed ev) tr \<Longrightarrow> after_first_failure tr = []"
  by (induction tr) auto

lemma filter_failed_none:
  "list_all (\<lambda>ev. \<not> failed ev) tr \<Longrightarrow> filter failed tr = []"
  by (induction tr) auto

lemma no_failed_write:
  "list_all (\<lambda>ev. \<not> failed ev) tr \<Longrightarrow> EvWriteMessage mt d (Some e) \<notin> set tr"
  by (auto simp: list_all_iff)

lemma no_failed_ex:
  "list_all (\<lambda>ev. \<not> failed ev) tr \<Longrightarrow> \<not> list_ex failed tr"
  by (auto simp: list_all_iff list_ex_iff)

lemma guacdToWs_out_stop: "out_stop (guacdToWs M opc script rs)"
  unfolding guacdToWs_def
proof (rule loop_rule[where R="\<lambda>_. True" and I="\<lambda>st. list_all (\<lambda>ev. \<not> failed ev) (trace st)"],
    goal_cases)
  case 1
  then show ?case by simp
next
  case (2 ins avail)
  then show ?case by simp
next
  case (3 st)
  then show ?case
    by (simp add: out_stop_def no_failed_ex filter_failed_none no_failed_write
        after_first_failure_none)
next
  case (4 st e)
  then show ?case
    by (simp add: out_stop_def emit_def filter_failed_none no_failed_write
        after_first_failure_skip)
next
  case (5 st ins)
  then show ?case by (simp add: emit_def)
next
  case (6 st ins)
  then show ?case by simp
next
  case (7 st ins avail)
  then show ?case by simp
next
  case (8 st ins avail e rs)
  then show ?case
    by (simp add: out_stop_def filter_failed_none no_failed_write
        after_first_failure_skip)
qed


lemma wsToGuacd_in_stop: "in_stop (wsToGuacd opc script rs)"
  unfolding wsToGuacd_def
proof (rule in_loop_rule[where I="\<lambda>st. list_all (\<lambda>ev. \<not> failed ev) (trace st)"], goal_cases)
  case 1
  then show ?case by simp
next
  case (2 st)
  then show ?case
    by (simp add: in_stop_def no_failed_ex filter_failed_none after_first_failure_none)
next
  case (3 st e)
  then show ?case
    by (simp add: in_stop_def filter_failed_none after_first_failure_skip)
next
  case (4 st mt data)
  then show ?case by simp
next
  case (5 st mt data)
  then show ?case by simp
next
  case (6 st mt data e rs)
  then show ?case
    by (simp add: in_stop_def filter_failed_none after_first_failure_skip)
qed

lemma guacdToWs_read_error:
  "list_ex read_fails script \<Longrightarrow> fst (guacdToWs_loop M opc script st) = Returned"
proof (induction script arbitrary: st)
  case Nil
  then show ?case by simp
next
  case (Cons a script)
  show ?case
  proof (cases a)
    case (ReadErr e)
    then show ?thesis by simp
  next
    case (ReadOk ins avail)
    then have later: "list_ex read_fails script" using Cons.prems by simp
    show ?thesis
    proof (cases rule: loop_cases[where ins=ins and opc=opc and avail=avail and st=st and M=M])
      case drop
      show ?thesis unfolding ReadOk loop_drop[OF drop] by (rule Cons.IH[OF later])
    next
      case hold
      show ?thesis unfolding ReadOk loop_hold[OF hold] by (rule Cons.IH[OF later])
    next
      case flush_ok
      show ?thesis unfolding ReadOk loop_flush_ok[OF flush_ok] by (rule Cons.IH[OF later])
    next
      case (flush_fail e rs)
      show ?thesis unfolding ReadOk loop_flush_fail[OF flush_fail] by simp
    qed
  qed
qed

lemma wsToGuacd_read_error:
  "list_ex ws_read_fails script \<Longrightarrow> fst (wsToGuacd_loop opc script st) = Returned"
proof (induction script arbitrary: st)
  case Nil
  then show ?case by simp
next
  case (Cons a script)
  show ?case
  proof (cases a)
    case (WsReadErr e)
    then show ?thesis by simp
  next
    case (WsMsg mt d)
    then have later: "list_ex ws_read_fails script" using Cons.prems by simp
    show ?thesis
    proof (cases "HasPrefix d opc")
      case True
      then show ?thesis using WsMsg Cons.IH[OF later] by simp
    next
      case False
      show ?thesis
      proof (cases rule: guacd_Write_cases[where st="emit (EvReadMessage (Inr (mt, d))) st" and data=d])
        case ok
        show ?thesis using WsMsg False ok(2) Cons.IH[OF later] by simp
      next
        case (err e rs)
        show ?thesis using WsMsg False err(2) by simp
      qed
    qed
  qed
qed

text \<open>
  Claim C4. Each pump ends at its first error and retries nothing. For \<open>guacdToWs\<close> and for
  \<open>wsToGuacd\<close>, whatever the scripts: the pump returns exactly when one of its calls (a read
  or a write) returned an error; at most one call ever fails; after the failed call the pump
  makes log calls only, so no read or write is attempted again; and a script that holds a
  read error makes the pump return. For \<open>guacdToWs\<close>, a write that fails with
  \<open>websocket.ErrCloseSent\<close> is followed by one debug-level log line without the error, any
  other write error by one warn-level line carrying it.
\<close>

theorem pumps_stop_at_first_error:
  "(case guacdToWs M opc script rs of (oc, st) \<Rightarrow>
      oc \<noteq> Panicked
      \<and> (oc = Returned) = list_ex failed (trace st)
      \<and> length (filter failed (trace st)) \<le> 1
      \<and> list_all is_log (after_first_failure (trace st))
      \<and> (\<forall>mt d. EvWriteMessage mt d (Some ErrCloseSent) \<in> set (trace st) \<longrightarrow>
            after_first_failure (trace st) =
              [EvLog DebugLevel [] ''[guacd -> Browser] websocket already closed (clean close)''])
      \<and> (\<forall>mt d e. e \<noteq> ErrCloseSent \<and> EvWriteMessage mt d (Some e) \<in> set (trace st) \<longrightarrow>
            after_first_failure (trace st) =
              [EvLog WarnLevel [FErr e]
                 ''[guacd -> Browser] Failed to write to WebSocket (browser may have disconnected)''])
      \<and> (list_ex read_fails script \<longrightarrow> oc = Returned))
   \<and> (case wsToGuacd opc wscript grs of (oc, st) \<Rightarrow>
      oc \<noteq> Panicked
      \<and> (oc = Returned) = list_ex failed (trace st)
      \<and> length (filter failed (trace st)) \<le> 1
      \<and> list_all is_log (after_first_failure (trace st))
      \<and> (list_ex ws_read_fails wscript \<longrightarrow> oc = Returned))"
proof -
  obtain oc st where o: "guacdToWs M opc script rs = (oc, st)" by (cases "guacdToWs M opc script rs")
  obtain ic ist where i: "wsToGuacd opc wscript grs = (ic, ist)" by (cases "wsToGuacd opc wscript grs")
  have a: "out_stop (oc, st)" using guacdToWs_out_stop[of M opc script rs] o by simp
  have b: "in_stop (ic, ist)" using wsToGuacd_in_stop[of opc wscript grs] i by simp
  have c: "list_ex read_fails script \<longrightarrow> oc = Returned"
    using guacdToWs_read_error[of script M opc "\<lparr>wres = rs, trace = [], buf = []\<rparr>"] o
    by (simp add: guacdToWs_def)
  have d: "list_ex ws_read_fails wscript \<longrightarrow> ic = Returned"
    using wsToGuacd_read_error[of wscript opc "\<lparr>wres = grs, trace = []\<rparr>"] i
    by (simp add: wsToGuacd_def)
  have a1: "oc \<noteq> Panicked" "(oc = Returned) = list_ex failed (trace st)"
     "length (filter failed (trace st)) \<le> 1" "list_all is_log (after_first_failure (trace st))"
    using a by (simp_all add: out_stop_def)
  have a2: "\<forall>mt d e. EvWriteMessage mt d (Some e) \<in> set (trace st) \<longrightarrow>
           after_first_failure (trace st) =
             [if e = ErrCloseSent
              then EvLog DebugLevel []
                     ''[guacd -> Browser] websocket already closed (clean close)''
              else EvLog WarnLevel [FErr e]
                     ''[guacd -> Browser] Failed to write to WebSocket (browser may have disconnected)'']"
    using a by (simp add: out_stop_def)
  have a3: "\<forall>mt d. EvWriteMessage mt d (Some ErrCloseSent) \<in> set (trace st) \<longrightarrow>
            after_first_failure (trace st) =
              [EvLog DebugLevel [] ''[guacd -> Browser] websocket already closed (clean close)'']"
  proof (intro allI impI)
    fix mt d
    assume "EvWriteMessage mt d (Some ErrCloseSent) \<in> set (trace st)"
    from a2[rule_format, OF this] show "after_first_failure (trace st) =
              [EvLog DebugLevel [] ''[guacd -> Browser] websocket already closed (clean close)'']"
      by simp
  qed
  have a4: "\<forall>mt d e. e \<noteq> ErrCloseSent \<and> EvWriteMessage mt d (Some e) \<in> set (trace st) \<longrightarrow>
            after_first_failure (trace st) =
              [EvLog WarnLevel [FErr e]
                 ''[guacd -> Browser] Failed to write to WebSocket (browser may have disconnected)'']"
  proof (intro allI impI)
    fix mt d e
    assume h: "e \<noteq> ErrCloseSent \<and> EvWriteMessage mt d (Some e) \<in> set (trace st)"
    then have "EvWriteMessage mt d (Some e) \<in> set (trace st)" by simp
    from a2[rule_format, OF this] h show "after_first_failure (trace st) =
              [EvLog WarnLevel [FErr e]
                 ''[guacd -> Browser] Failed to write to WebSocket (browser may have disconnected)'']"
      by simp
  qed
  have b1: "ic \<noteq> Panicked" "(ic = Returned) = list_ex failed (trace ist)"
     "length (filter failed (trace ist)) \<le> 1" "list_all is_log (after_first_failure (trace ist))"
    using b by (simp_all add: in_stop_def)
  show ?thesis unfolding o i prod.case by (intro conjI a1 a3 a4 c b1 d)
qed

theorem pumps_stop_at_first_error_witness:
  "EvWriteMessage 1 ''3.nop;'' (Some ErrCloseSent) \<in> set (trace (snd (guacdToWs 8192 ''0.''
       [ReadOk ''4.sync,1.8;'' False, ReadOk ''3.nop;'' False, ReadOk ''3.nop;'' False]
       [None, Some ErrCloseSent])))
   \<and> fst (guacdToWs 8192 ''0.''
       [ReadOk ''4.sync,1.8;'' False, ReadOk ''3.nop;'' False, ReadOk ''3.nop;'' False]
       [None, Some ErrCloseSent]) = Returned
   \<and> after_first_failure (trace (snd (guacdToWs 8192 ''0.''
       [ReadOk ''4.sync,1.8;'' False, ReadOk ''3.nop;'' False, ReadOk ''3.nop;'' False]
       [None, Some ErrCloseSent]))) =
        [EvLog DebugLevel [] ''[guacd -> Browser] websocket already closed (clean close)'']
   \<and> OtherError ''broken pipe'' \<noteq> ErrCloseSent
   \<and> EvWriteMessage 1 ''4.sync,1.8;'' (Some (OtherError ''broken pipe''))
        \<in> set (trace (snd (guacdToWs 8192 ''0.''
             [ReadOk ''4.sync,1.8;'' False, ReadOk ''3.nop;'' False]
             [Some (OtherError ''broken pipe'')])))
   \<and> after_first_failure (trace (snd (guacdToWs 8192 ''0.''
             [ReadOk ''4.sync,1.8;'' False, ReadOk ''3.nop;'' False]
             [Some (OtherError ''broken pipe'')]))) =
        [EvLog WarnLevel [FErr (OtherError ''broken pipe'')]
           ''[guacd -> Browser] Failed to write to WebSocket (browser may have disconnected)'']
   \<and> list_ex read_fails [ReadOk ''4.sync,1.8;'' True, ReadErr (OtherError ''EOF''), ReadOk ''3.nop;'' False]
   \<and> fst (guacdToWs 8192 ''0.''
        [ReadOk ''4.sync,1.8;'' True, ReadErr (OtherError ''EOF''), ReadOk ''3.nop;'' False] []) = Returned
   \<and> list_ex ws_read_fails
        [WsMsg 1 ''3.key,2.65,1.1;'', WsReadErr (OtherError ''EOF''), WsMsg 1 ''3.nop;'']
   \<and> fst (wsToGuacd ''0.''
        [WsMsg 1 ''3.key,2.65,1.1;'', WsReadErr (OtherError ''EOF''), WsMsg 1 ''3.nop;''] []) = Returned"
proof -
  let ?s1 = "[ReadOk ''4.sync,1.8;'' False, ReadOk ''3.nop;'' False, ReadOk ''3.nop;'' False]"
  let ?s2 = "[ReadOk ''4.sync,1.8;'' False, ReadOk ''3.nop;'' False]"
  let ?s3 = "[ReadOk ''4.sync,1.8;'' True, ReadErr (OtherError ''EOF''), ReadOk ''3.nop;'' False]"
  let ?w = "[WsMsg 1 ''3.key,2.65,1.1;'', WsReadErr (OtherError ''EOF''), WsMsg 1 ''3.nop;'']"
  have m1: "EvWriteMessage 1 ''3.nop;'' (Some ErrCloseSent)
      \<in> set (trace (snd (guacdToWs 8192 ''0.'' ?s1 [None, Some ErrCloseSent])))"
    by (simp add: guacdToWs_def Let_def HasPrefix_def buf_Write_def WriteMessage_def emit_def)
  have m2: "EvWriteMessage 1 ''4.sync,1.8;'' (Some (OtherError ''broken pipe''))
      \<in> set (trace (snd (guacdToWs 8192 ''0.'' ?s2 [Some (OtherError ''broken pipe'')])))"
    by (simp add: guacdToWs_def Let_def HasPrefix_def buf_Write_def WriteMessage_def emit_def)
  have m3: "list_ex read_fails ?s3" and m4: "list_ex ws_read_fails ?w" by simp_all
  note t1 = pumps_stop_at_first_error[where M=8192 and opc="''0.''" and script="?s1"
      and rs="[None, Some ErrCloseSent]" and wscript="?w" and grs="[]"]
  note t2 = pumps_stop_at_first_error[where M=8192 and opc="''0.''" and script="?s2"
      and rs="[Some (OtherError ''broken pipe'')]" and wscript="?w" and grs="[]"]
  note t3 = pumps_stop_at_first_error[where M=8192 and opc="''0.''" and script="?s3"
      and rs="[]" and wscript="?w" and grs="[]"]
  have r1: "after_first_failure (trace (snd (guacdToWs 8192 ''0.'' ?s1 [None, Some ErrCloseSent]))) =
        [EvLog DebugLevel [] ''[guacd -> Browser] websocket already closed (clean close)'']"
    and r1': "fst (guacdToWs 8192 ''0.'' ?s1 [None, Some ErrCloseSent]) = Returned"
    using t1 m1 by (auto simp: case_prod_unfold list_ex_iff intro: bexI[OF _ m1])
  have r2: "after_first_failure (trace (snd (guacdToWs 8192 ''0.'' ?s2 [Some (OtherError ''broken pipe'')]))) =
        [EvLog WarnLevel [FErr (OtherError ''broken pipe'')]
           ''[guacd -> Browser] Failed to write to WebSocket (browser may have disconnected)'']"
    using t2 m2 by (auto simp: case_prod_unfold)
  have r3: "fst (guacdToWs 8192 ''0.'' ?s3 []) = Returned"
    using t3 m3 by (simp add: case_prod_unfold)
  have r4: "fst (wsToGuacd ''0.'' ?w []) = Returned"
    using t3 m4 by (simp add: case_prod_unfold)
  show ?thesis using m1 m2 m3 m4 r1 r1' r2 r3 r4 by simp
qed

section \<open>A dropped instruction does not flush\<close>

text \<open>
  Claim C8. The flush test of \<open>guacdToWs\<close> sits after the append only. When an instruction
  with the reserved prefix is read, the loop goes straight to the next \<open>ReadSome\<close>: it asks
  \<open>Available()\<close> nothing, writes nothing and leaves the buffer as it is, whatever
  \<open>Available()\<close> would have answered. So when such an instruction is the last one for now,
  the pump waits in \<open>ReadSome\<close> with the earlier bytes still unsent: one instruction held
  back for batching, then a dropped one with nothing more available, end with the pump
  blocked, the first instruction in the buffer and no \<open>WriteMessage\<close> call made.
\<close>

theorem dropped_instruction_skips_flush:
  "(HasPrefix d opc \<longrightarrow>
      guacdToWs_loop M opc (ReadOk d avail # rest) st =
        guacdToWs_loop M opc rest (emit (EvReadSome (Inr d)) st)
      \<and> guacdToWs_loop M opc [ReadOk d avail] st = (BlockedInRead, emit (EvReadSome (Inr d)) st)
      \<and> buf (emit (EvReadSome (Inr d)) st) = buf st
      \<and> ws_calls (trace (emit (EvReadSome (Inr d)) st)) = ws_calls (trace st))
   \<and> (HasPrefix d opc \<and> \<not> HasPrefix a opc \<and> length a < M \<longrightarrow>
      guacdToWs M opc [ReadOk a True, ReadOk d False] rs =
        (BlockedInRead,
         \<lparr>wres = rs, trace = [EvReadSome (Inr a), EvAvailable True, EvReadSome (Inr d)],
          buf = a\<rparr>))"
proof (intro conjI impI)
  assume h: "HasPrefix d opc"
  show "guacdToWs_loop M opc (ReadOk d avail # rest) st =
        guacdToWs_loop M opc rest (emit (EvReadSome (Inr d)) st)"
    by (rule loop_drop[OF h])
  show "guacdToWs_loop M opc [ReadOk d avail] st = (BlockedInRead, emit (EvReadSome (Inr d)) st)"
    unfolding loop_drop[OF h] by simp
  show "buf (emit (EvReadSome (Inr d)) st) = buf st" by (simp add: emit_def)
  show "ws_calls (trace (emit (EvReadSome (Inr d)) st)) = ws_calls (trace st)"
    by (simp add: emit_def)
next
  assume h: "HasPrefix d opc \<and> \<not> HasPrefix a opc \<and> length a < M"
  then have d: "HasPrefix d opc" and a: "\<not> HasPrefix a opc" and l: "length a < M" by simp_all
  have l': "length (buf \<lparr>wres = rs, trace = [], buf = []\<rparr> @ a) < M" using l by simp
  show "guacdToWs M opc [ReadOk a True, ReadOk d False] rs =
        (BlockedInRead,
         \<lparr>wres = rs, trace = [EvReadSome (Inr a), EvAvailable True, EvReadSome (Inr d)],
          buf = a\<rparr>)"
    unfolding guacdToWs_def loop_hold[OF a TrueI l'] loop_drop[OF d]
    by (simp add: emit_def)
qed

theorem dropped_instruction_skips_flush_witness:
  "HasPrefix ''0.,4.ping,1.7;'' ''0.'' \<and> \<not> HasPrefix ''4.sync,1.8;'' ''0.''
   \<and> length ''4.sync,1.8;'' < 8192
   \<and> guacdToWs_loop 8192 ''0.'' [ReadOk ''0.,4.ping,1.7;'' False]
        \<lparr>wres = [], trace = [], buf = ''4.sync,1.8;''\<rparr> =
      (BlockedInRead,
       \<lparr>wres = [], trace = [EvReadSome (Inr ''0.,4.ping,1.7;'')], buf = ''4.sync,1.8;''\<rparr>)
   \<and> guacdToWs 8192 ''0.'' [ReadOk ''4.sync,1.8;'' True, ReadOk ''0.,4.ping,1.7;'' False] [] =
        (BlockedInRead,
         \<lparr>wres = [],
          trace = [EvReadSome (Inr ''4.sync,1.8;''), EvAvailable True,
                   EvReadSome (Inr ''0.,4.ping,1.7;'')],
          buf = ''4.sync,1.8;''\<rparr>)"
proof -
  have h: "HasPrefix ''0.,4.ping,1.7;'' ''0.''" "\<not> HasPrefix ''4.sync,1.8;'' ''0.''"
    "length ''4.sync,1.8;'' < 8192"
    by (simp_all add: HasPrefix_def)
  note t = dropped_instruction_skips_flush[where d="''0.,4.ping,1.7;''" and opc="''0.''"
      and a="''4.sync,1.8;''" and M=8192 and avail=False and rs="[]" and rest="[]"
      and st="\<lparr>wres = [], trace = [], buf = ''4.sync,1.8;''\<rparr>"]
  have r1: "guacdToWs_loop 8192 ''0.'' [ReadOk ''0.,4.ping,1.7;'' False]
        \<lparr>wres = [], trace = [], buf = ''4.sync,1.8;''\<rparr> =
      (BlockedInRead, emit (EvReadSome (Inr ''0.,4.ping,1.7;''))
         \<lparr>wres = [], trace = [], buf = ''4.sync,1.8;''\<rparr>)"
    using t h by blast
  have r2: "guacdToWs 8192 ''0.'' [ReadOk ''4.sync,1.8;'' True, ReadOk ''0.,4.ping,1.7;'' False] [] =
        (BlockedInRead,
         \<lparr>wres = [],
          trace = [EvReadSome (Inr ''4.sync,1.8;''), EvAvailable True,
                   EvReadSome (Inr ''0.,4.ping,1.7;'')],
          buf = ''4.sync,1.8;''\<rparr>)"
    using t h by blast
  show ?thesis unfolding r1 r2 using h by (simp add: emit_def)
qed

section \<open>Message types\<close>

lemma text_frames_only:
  "(\<lambda>(oc, st). list_all (\<lambda>c. fst c = 1) (ws_calls (trace st))) (guacdToWs M opc script rs)"
  unfolding guacdToWs_def
  by (rule loop_rule[where R="\<lambda>_. True" and
        I="\<lambda>st. list_all (\<lambda>c. fst c = 1) (ws_calls (trace st))"])
     (simp_all add: emit_def)

lemma type_blind_loop:
  "same_payloads xs ys \<Longrightarrow> wres st = wres st' \<Longrightarrow>
   map untyped (trace st) = map untyped (trace st') \<Longrightarrow>
   fst (wsToGuacd_loop opc xs st) = fst (wsToGuacd_loop opc ys st')
   \<and> map untyped (trace (snd (wsToGuacd_loop opc xs st))) =
       map untyped (trace (snd (wsToGuacd_loop opc ys st')))"
proof (induction xs ys arbitrary: st st' rule: same_payloads.induct)
  case 1
  then show ?case by simp
next
  case (2 e xs e' ys)
  then show ?case by (simp add: emit_def)
next
  case (3 mt d xs mt' d' ys)
  then have eq: "d' = d" and sp: "same_payloads xs ys" by simp_all
  show ?case
  proof (cases "HasPrefix d opc")
    case True
    have "fst (wsToGuacd_loop opc xs (emit (EvReadMessage (Inr (mt, d))) st)) =
          fst (wsToGuacd_loop opc ys (emit (EvReadMessage (Inr (mt', d))) st'))
       \<and> map untyped (trace (snd (wsToGuacd_loop opc xs (emit (EvReadMessage (Inr (mt, d))) st)))) =
         map untyped (trace (snd (wsToGuacd_loop opc ys (emit (EvReadMessage (Inr (mt', d))) st'))))"
      using "3.prems" by (intro "3.IH") (simp_all add: emit_def)
    then show ?thesis using True eq by simp
  next
    case False
    show ?thesis
    proof (cases "wres st")
      case Nil
      have "fst (wsToGuacd_loop opc xs (emit (EvWrite d None) (emit (EvReadMessage (Inr (mt, d))) st))) =
          fst (wsToGuacd_loop opc ys (emit (EvWrite d None) (emit (EvReadMessage (Inr (mt', d))) st')))
       \<and> map untyped (trace (snd (wsToGuacd_loop opc xs (emit (EvWrite d None) (emit (EvReadMessage (Inr (mt, d))) st))))) =
         map untyped (trace (snd (wsToGuacd_loop opc ys (emit (EvWrite d None) (emit (EvReadMessage (Inr (mt', d))) st')))))"
        using "3.prems" by (intro "3.IH") (simp_all add: emit_def)
      then show ?thesis using False eq Nil "3.prems"(2)
        by (simp add: guacd_Write_def emit_def)
    next
      case (Cons r rs)
      show ?thesis
      proof (cases r)
        case None
        have "fst (wsToGuacd_loop opc xs (emit (EvWrite d None) ((emit (EvReadMessage (Inr (mt, d))) st)\<lparr>wres := rs\<rparr>))) =
          fst (wsToGuacd_loop opc ys (emit (EvWrite d None) ((emit (EvReadMessage (Inr (mt', d))) st')\<lparr>wres := rs\<rparr>)))
         \<and> map untyped (trace (snd (wsToGuacd_loop opc xs (emit (EvWrite d None) ((emit (EvReadMessage (Inr (mt, d))) st)\<lparr>wres := rs\<rparr>))))) =
           map untyped (trace (snd (wsToGuacd_loop opc ys (emit (EvWrite d None) ((emit (EvReadMessage (Inr (mt', d))) st')\<lparr>wres := rs\<rparr>)))))"
          using "3.prems" by (intro "3.IH") (simp_all add: emit_def)
        then show ?thesis using False eq Cons None "3.prems"(2)
          by (simp add: guacd_Write_def emit_def)
      next
        case (Some e)
        then show ?thesis using False eq Cons "3.prems"
          by (simp add: guacd_Write_def emit_def)
      qed
    qed
  qed
qed simp_all


text \<open>
  Claim C9. Every \<open>WriteMessage\<close> call of the outbound pump passes message type 1 (text),
  whatever the payload. The inbound pump discards the message type that \<open>ReadMessage\<close>
  returns: two runs over websocket scripts that differ only in the message types end the
  same way and make the same calls, up to the types recorded for the reads.
\<close>

theorem message_types:
  "list_all (\<lambda>c. fst c = 1) (ws_calls (trace (snd (guacdToWs M opc script rs))))
   \<and> (same_payloads xs ys \<longrightarrow>
        fst (wsToGuacd opc xs grs) = fst (wsToGuacd opc ys grs)
        \<and> map untyped (trace (snd (wsToGuacd opc xs grs))) =
            map untyped (trace (snd (wsToGuacd opc ys grs))))"
proof (intro conjI impI)
  show "list_all (\<lambda>c. fst c = 1) (ws_calls (trace (snd (guacdToWs M opc script rs))))"
    using text_frames_only[of M opc script rs] by (simp add: case_prod_unfold)
next
  assume sp: "same_payloads xs ys"
  have "fst (wsToGuacd_loop opc xs \<lparr>wres = grs, trace = []\<rparr>) =
          fst (wsToGuacd_loop opc ys \<lparr>wres = grs, trace = []\<rparr>)
      \<and> map untyped (trace (snd (wsToGuacd_loop opc xs \<lparr>wres = grs, trace = []\<rparr>))) =
          map untyped (trace (snd (wsToGuacd_loop opc ys \<lparr>wres = grs, trace = []\<rparr>)))"
    by (rule type_blind_loop[OF sp]) simp_all
  then show "fst (wsToGuacd opc xs grs) = fst (wsToGuacd opc ys grs)"
    and "map untyped (trace (snd (wsToGuacd opc xs grs))) =
            map untyped (trace (snd (wsToGuacd opc ys grs)))"
    by (simp_all add: wsToGuacd_def)
qed

theorem message_types_witness:
  "same_payloads [WsMsg 1 ''3.key,2.65,1.1;'', WsMsg 1 ''0.,4.ping,1.7;'']
                 [WsMsg 2 ''3.key,2.65,1.1;'', WsMsg 2 ''0.,4.ping,1.7;'']
   \<and> list_all (\<lambda>c. fst c = 1)
        (ws_calls (trace (snd (guacdToWs 8192 ''0.'' [ReadOk ''4.sync,1.8;'' False] []))))
   \<and> fst (wsToGuacd ''0.'' [WsMsg 1 ''3.key,2.65,1.1;'', WsMsg 1 ''0.,4.ping,1.7;''] []) =
       fst (wsToGuacd ''0.'' [WsMsg 2 ''3.key,2.65,1.1;'', WsMsg 2 ''0.,4.ping,1.7;''] [])
   \<and> map untyped
        (trace (snd (wsToGuacd ''0.'' [WsMsg 1 ''3.key,2.65,1.1;'', WsMsg 1 ''0.,4.ping,1.7;''] []))) =
       map untyped
        (trace (snd (wsToGuacd ''0.'' [WsMsg 2 ''3.key,2.65,1.1;'', WsMsg 2 ''0.,4.ping,1.7;''] [])))"
proof -
  have h: "same_payloads [WsMsg 1 ''3.key,2.65,1.1;'', WsMsg 1 ''0.,4.ping,1.7;'']
                 [WsMsg 2 ''3.key,2.65,1.1;'', WsMsg 2 ''0.,4.ping,1.7;'']"
    by simp
  show ?thesis
    using h message_types[where M=8192 and opc="''0.''" and script="[ReadOk ''4.sync,1.8;'' False]"
      and rs="[]" and grs="[]"
      and xs="[WsMsg 1 ''3.key,2.65,1.1;'', WsMsg 1 ''0.,4.ping,1.7;'']"
      and ys="[WsMsg 2 ''3.key,2.65,1.1;'', WsMsg 2 ''0.,4.ping,1.7;'']"]
    by blast
qed

section \<open>The handler\<close>

lemma lifecycle_append [simp]: "lifecycle (xs @ ys) = lifecycle xs @ lifecycle ys"
  by (simp add: lifecycle_def)

lemma lifecycle_Nil [simp]: "lifecycle [] = []"
  by (simp add: lifecycle_def)

lemma lifecycle_Cons [simp]:
  "lifecycle (ev # tr) = (if is_lifecycle ev then ev # lifecycle tr else lifecycle tr)"
  by (simp add: lifecycle_def)

lemma pump_no_lifecycle: "lifecycle (trace (snd (guacdToWs M opc script rs))) = []"
proof -
  have "(\<lambda>(oc, st). lifecycle (trace st) = []) (guacdToWs M opc script rs)"
    unfolding guacdToWs_def
    by (rule loop_rule[where R="\<lambda>_. True" and I="\<lambda>st. lifecycle (trace st) = []"])
       (simp_all add: emit_def)
  then show ?thesis by (simp add: case_prod_unfold)
qed

lemma pump_never_panics: "fst (guacdToWs M opc script rs) \<noteq> Panicked"
  using guacdToWs_out_stop[of M opc script rs] by (simp add: out_stop_def)

lemma connect_step_call:
  "connect_step s ws r = Some (call, x) \<Longrightarrow> call = EvConnect \<or> call = EvConnectWs"
  by (auto simp: connect_step_def split: option.splits)

lemma deferred_closes_lifecycle [simp]:
  "lifecycle (deferred_ws_Close ws) = []"
  "lifecycle (deferred_tunnel_Close t) = [EvTunnelClose (tunnel_close_result t)]"
  by (simp_all add: deferred_ws_Close_def deferred_tunnel_Close_def split: option.splits)

lemma ServeHTTP_connected:
  assumes "connect_step s ws r = Some (call, Inr t)"
  shows "ServeHTTP M opc s (Inr ws) r h =
    (fst (guacdToWs M opc (instructions t) (ws_write_results ws)),
     ([EvUpgrade (websocketReadBufferSize M) (websocketWriteBufferSize M)
         [(''Sec-Websocket-Protocol'', [Header_Get (Header r) ''Sec-Websocket-Protocol''])] None,
       EvLog TraceLevel [] ''connecting to tunnel'',
       call None,
       EvLog TraceLevel [] ''connected to tunnel'',
       EvLog TraceLevel
         [FStr ''connection_id'' (ConnectionID t), FStr ''remote_addr'' (RemoteAddr r)]
         ''websocket connection established'']
      @ (if OnConnect s then [EvOnConnect (ConnectionID t)] else [])
      @ (if OnConnectWs s then [EvOnConnectWs (ConnectionID t)] else [])
      @ [EvAcquireWriter, EvAcquireReader])
     @ EvGoWsToGuacd # trace (snd (guacdToWs M opc (instructions t) (ws_write_results ws)))
     @ (if fst (guacdToWs M opc (instructions t) (ws_write_results ws)) = Returned
        then [EvReleaseReader, EvReleaseWriter,
              EvLog TraceLevel [FStr ''connection_id'' (ConnectionID t)]
                ''websocket connection closed'']
             @ (if OnDisconnectWs s then [EvOnDisconnectWs (ConnectionID t)] else [])
             @ (if OnDisconnect s then [EvOnDisconnect (ConnectionID t)] else [])
             @ deferred_tunnel_Close t @ deferred_ws_Close ws
        else []),
     h(logger s := UpdateContext (Str ''connection_id'' (ConnectionID t)) (h (logger s))))"
proof (cases "fst (guacdToWs M opc (instructions t) (ws_write_results ws))")
  case Returned
  then show ?thesis using assms by (simp add: ServeHTTP_def Let_def run_deferred_def)
next
  case BlockedInRead
  then show ?thesis using assms by (simp add: ServeHTTP_def Let_def run_deferred_def)
next
  case Panicked
  then show ?thesis using pump_never_panics[of M opc "instructions t" "ws_write_results ws"]
    by simp
qed

lemma ServeHTTP_not_connected:
  "ServeHTTP M opc s (Inl err) r h =
     (Returned,
      [EvUpgrade (websocketReadBufferSize M) (websocketWriteBufferSize M)
         [(''Sec-Websocket-Protocol'', [Header_Get (Header r) ''Sec-Websocket-Protocol''])] (Some err),
       EvLog ErrorLevel [FErr err] ''failed to upgrade websocket''], h)"
  "connect_step s ws r = None \<Longrightarrow>
   ServeHTTP M opc s (Inr ws) r h =
     (Panicked,
      [EvUpgrade (websocketReadBufferSize M) (websocketWriteBufferSize M)
         [(''Sec-Websocket-Protocol'', [Header_Get (Header r) ''Sec-Websocket-Protocol''])] None,
       EvLog TraceLevel [] ''connecting to tunnel''] @ deferred_ws_Close ws, h)"
  "connect_step s ws r = Some (call, Inl e) \<Longrightarrow>
   ServeHTTP M opc s (Inr ws) r h =
     (Returned,
      [EvUpgrade (websocketReadBufferSize M) (websocketWriteBufferSize M)
         [(''Sec-Websocket-Protocol'', [Header_Get (Header r) ''Sec-Websocket-Protocol''])] None,
       EvLog TraceLevel [] ''connecting to tunnel'', call (Some e)] @ deferred_ws_Close ws, h)"
  by (simp_all add: ServeHTTP_def Let_def run_deferred_def)


text \<open>
  Claim C5. When the connect step succeeds, the handler's calls fall into three parts. Before
  the inbound pump is started and before the first call of the outbound pump: \<open>OnConnect\<close>
  and \<open>OnConnectWs\<close>, once each if set and in this order, then the acquiring of the writer and
  of the reader. Then the start of the inbound pump and the calls of the outbound pump, none
  of which is a callback or touches the tunnel's handles. Then, if the outbound pump
  returns, for whatever reason: the reader and the writer are released, \<open>OnDisconnectWs\<close> and
  \<open>OnDisconnect\<close> are called once each if set, and the tunnel is closed; while the pump has
  not returned nothing of this happens. When the connect step fails (an error, or no
  connect function at all) or the upgrade fails, there is no callback and no tunnel close.
\<close>

theorem connection_lifecycle:
  "(connect_step s ws r = Some (call, Inr t) \<longrightarrow>
     (case ServeHTTP M opc s (Inr ws) r h of (oc, tr, h') \<Rightarrow>
        oc = fst (guacdToWs M opc (instructions t) (ws_write_results ws))
        \<and> (\<exists>pre post.
              tr = pre @ EvGoWsToGuacd #
                     trace (snd (guacdToWs M opc (instructions t) (ws_write_results ws))) @ post
              \<and> lifecycle pre =
                  (if OnConnect s then [EvOnConnect (ConnectionID t)] else [])
                  @ (if OnConnectWs s then [EvOnConnectWs (ConnectionID t)] else [])
                  @ [EvAcquireWriter, EvAcquireReader]
              \<and> lifecycle (trace (snd (guacdToWs M opc (instructions t) (ws_write_results ws)))) = []
              \<and> lifecycle post =
                  (if oc = Returned
                   then [EvReleaseReader, EvReleaseWriter]
                        @ (if OnDisconnectWs s then [EvOnDisconnectWs (ConnectionID t)] else [])
                        @ (if OnDisconnect s then [EvOnDisconnect (ConnectionID t)] else [])
                        @ [EvTunnelClose (tunnel_close_result t)]
                   else []))))
   \<and> (connect_step s ws r = None \<or> connect_step s ws r = Some (call, Inl e) \<longrightarrow>
        lifecycle (fst (snd (ServeHTTP M opc s (Inr ws) r h))) = [])
   \<and> lifecycle (fst (snd (ServeHTTP M opc s (Inl err) r h))) = []"
proof (intro conjI impI)
  assume c: "connect_step s ws r = Some (call, Inr t)"
  have nl: "\<not> is_lifecycle (call None)" using connect_step_call[OF c] by auto
  show "case ServeHTTP M opc s (Inr ws) r h of (oc, tr, h') \<Rightarrow>
        oc = fst (guacdToWs M opc (instructions t) (ws_write_results ws))
        \<and> (\<exists>pre post.
              tr = pre @ EvGoWsToGuacd #
                     trace (snd (guacdToWs M opc (instructions t) (ws_write_results ws))) @ post
              \<and> lifecycle pre =
                  (if OnConnect s then [EvOnConnect (ConnectionID t)] else [])
                  @ (if OnConnectWs s then [EvOnConnectWs (ConnectionID t)] else [])
                  @ [EvAcquireWriter, EvAcquireReader]
              \<and> lifecycle (trace (snd (guacdToWs M opc (instructions t) (ws_write_results ws)))) = []
              \<and> lifecycle post =
                  (if oc = Returned
                   then [EvReleaseReader, EvReleaseWriter]
                        @ (if OnDisconnectWs s then [EvOnDisconnectWs (ConnectionID t)] else [])
                        @ (if OnDisconnect s then [EvOnDisconnect (ConnectionID t)] else [])
                        @ [EvTunnelClose (tunnel_close_result t)]
                   else []))"
    unfolding ServeHTTP_connected[OF c] prod.case
    apply (intro conjI refl exI)
       apply (rule refl)
      apply (simp add: nl)
     apply (rule pump_no_lifecycle)
    apply simp
    done
next
  assume "connect_step s ws r = None \<or> connect_step s ws r = Some (call, Inl e)"
  then show "lifecycle (fst (snd (ServeHTTP M opc s (Inr ws) r h))) = []"
  proof
    assume "connect_step s ws r = None"
    then show ?thesis by (simp add: ServeHTTP_not_connected(2))
  next
    assume c: "connect_step s ws r = Some (call, Inl e)"
    have "\<not> is_lifecycle (call (Some e))" using connect_step_call[OF c] by auto
    then show ?thesis by (simp add: ServeHTTP_not_connected(3)[OF c])
  qed
next
  show "lifecycle (fst (snd (ServeHTTP M opc s (Inl err) r h))) = []"
    by (simp add: ServeHTTP_not_connected(1))
qed


theorem connection_lifecycle_witness:
  "connect_step
     ((NewWebsocketServer
         (Some (\<lambda>r. Inr \<lparr>ConnectionID = ''$c1'',
                           instructions = [ReadOk ''3.nop;'' False, ReadErr (OtherError ''EOF'')],
                           tunnel_close_result = None\<rparr>)) None)
        \<lparr>OnConnect := True, OnDisconnect := True\<rparr>)
     \<lparr>ws_write_results = [], ws_close_result = None\<rparr>
     \<lparr>Header = [], RemoteAddr = ''10.0.0.1:5000''\<rparr>
   = Some (EvConnect, Inr \<lparr>ConnectionID = ''$c1'',
                           instructions = [ReadOk ''3.nop;'' False, ReadErr (OtherError ''EOF'')],
                           tunnel_close_result = None\<rparr>)
   \<and> fst (ServeHTTP 8192 ''0.''
        ((NewWebsocketServer
           (Some (\<lambda>r. Inr \<lparr>ConnectionID = ''$c1'',
                           instructions = [ReadOk ''3.nop;'' False, ReadErr (OtherError ''EOF'')],
                           tunnel_close_result = None\<rparr>)) None)
          \<lparr>OnConnect := True, OnDisconnect := True\<rparr>)
        (Inr \<lparr>ws_write_results = [], ws_close_result = None\<rparr>)
        \<lparr>Header = [], RemoteAddr = ''10.0.0.1:5000''\<rparr>
        (init_loggers (\<lambda>a. zerolog_New Stderr))) = Returned
   \<and> lifecycle (fst (snd (ServeHTTP 8192 ''0.''
        ((NewWebsocketServer
           (Some (\<lambda>r. Inr \<lparr>ConnectionID = ''$c1'',
                           instructions = [ReadOk ''3.nop;'' False, ReadErr (OtherError ''EOF'')],
                           tunnel_close_result = None\<rparr>)) None)
          \<lparr>OnConnect := True, OnDisconnect := True\<rparr>)
        (Inr \<lparr>ws_write_results = [], ws_close_result = None\<rparr>)
        \<lparr>Header = [], RemoteAddr = ''10.0.0.1:5000''\<rparr>
        (init_loggers (\<lambda>a. zerolog_New Stderr))))) =
       [EvOnConnect ''$c1'', EvAcquireWriter, EvAcquireReader, EvGoWsToGuacd,
        EvReleaseReader, EvReleaseWriter, EvOnDisconnect ''$c1'', EvTunnelClose None]
   \<and> connect_step (NewWebsocketServer (Some (\<lambda>r. Inl (OtherError ''dial tcp: refused''))) None)
        \<lparr>ws_write_results = [], ws_close_result = None\<rparr>
        \<lparr>Header = [], RemoteAddr = ''10.0.0.1:5000''\<rparr>
       = Some (EvConnect, Inl (OtherError ''dial tcp: refused''))
   \<and> lifecycle (fst (snd (ServeHTTP 8192 ''0.''
        (NewWebsocketServer (Some (\<lambda>r. Inl (OtherError ''dial tcp: refused''))) None)
        (Inr \<lparr>ws_write_results = [], ws_close_result = None\<rparr>)
        \<lparr>Header = [], RemoteAddr = ''10.0.0.1:5000''\<rparr>
        (init_loggers (\<lambda>a. zerolog_New Stderr))))) = []"
proof -
  let ?t = "\<lparr>ConnectionID = ''$c1'',
             instructions = [ReadOk ''3.nop;'' False, ReadErr (OtherError ''EOF'')],
             tunnel_close_result = None\<rparr>"
  let ?s = "(NewWebsocketServer (Some (\<lambda>r. Inr ?t)) None)\<lparr>OnConnect := True, OnDisconnect := True\<rparr>"
  let ?s' = "NewWebsocketServer (Some (\<lambda>r. Inl (OtherError ''dial tcp: refused''))) None"
  let ?ws = "\<lparr>ws_write_results = [], ws_close_result = None\<rparr>"
  let ?r = "\<lparr>Header = [], RemoteAddr = ''10.0.0.1:5000''\<rparr>"
  have c: "connect_step ?s ?ws ?r = Some (EvConnect, Inr ?t)"
    by (simp add: connect_step_def NewWebsocketServer_def)
  have c': "connect_step ?s' ?ws ?r = Some (EvConnect, Inl (OtherError ''dial tcp: refused''))"
    by (simp add: connect_step_def NewWebsocketServer_def)
  have p: "fst (guacdToWs 8192 ''0.'' [ReadOk ''3.nop;'' False, ReadErr (OtherError ''EOF'')] []) = Returned"
    by (simp add: guacdToWs_def Let_def HasPrefix_def buf_Write_def WriteMessage_def emit_def)
  note t = connection_lifecycle[where s="?s" and ws="?ws" and r="?r" and call=EvConnect and t="?t"
      and M=8192 and opc="''0.''" and h="init_loggers (\<lambda>a. zerolog_New Stderr)" and err="OtherError ''bad handshake''"]
  note t' = connection_lifecycle[where s="?s'" and ws="?ws" and r="?r" and call=EvConnect
      and e="OtherError ''dial tcp: refused''" and M=8192 and opc="''0.''" and h="init_loggers (\<lambda>a. zerolog_New Stderr)"
      and err="OtherError ''bad handshake''"]
  obtain oc tr h' where sv: "ServeHTTP 8192 ''0.'' ?s (Inr ?ws) ?r (init_loggers (\<lambda>a. zerolog_New Stderr)) = (oc, tr, h')"
    by (cases "ServeHTTP 8192 ''0.'' ?s (Inr ?ws) ?r (init_loggers (\<lambda>a. zerolog_New Stderr))") auto
  have t1: "oc = fst (guacdToWs 8192 ''0.'' (instructions ?t) (ws_write_results ?ws))
      \<and> (\<exists>pre post.
              tr = pre @ EvGoWsToGuacd #
                     trace (snd (guacdToWs 8192 ''0.'' (instructions ?t) (ws_write_results ?ws))) @ post
              \<and> lifecycle pre =
                  (if OnConnect ?s then [EvOnConnect (ConnectionID ?t)] else [])
                  @ (if OnConnectWs ?s then [EvOnConnectWs (ConnectionID ?t)] else [])
                  @ [EvAcquireWriter, EvAcquireReader]
              \<and> lifecycle (trace (snd (guacdToWs 8192 ''0.'' (instructions ?t) (ws_write_results ?ws)))) = []
              \<and> lifecycle post =
                  (if oc = Returned
                   then [EvReleaseReader, EvReleaseWriter]
                        @ (if OnDisconnectWs ?s then [EvOnDisconnectWs (ConnectionID ?t)] else [])
                        @ (if OnDisconnect ?s then [EvOnDisconnect (ConnectionID ?t)] else [])
                        @ [EvTunnelClose (tunnel_close_result ?t)]
                   else []))"
    using t[THEN conjunct1, THEN mp, OF c] unfolding sv prod.case .
  then have oc: "oc = Returned" using p by simp
  from t1 oc obtain pre post where
    d: "tr = pre @ EvGoWsToGuacd #
          trace (snd (guacdToWs 8192 ''0.'' (instructions ?t) (ws_write_results ?ws))) @ post"
    and l1: "lifecycle pre = [EvOnConnect ''$c1'', EvAcquireWriter, EvAcquireReader]"
    and l2: "lifecycle (trace (snd (guacdToWs 8192 ''0.'' (instructions ?t) (ws_write_results ?ws)))) = []"
    and l3: "lifecycle post = [EvReleaseReader, EvReleaseWriter, EvOnDisconnect ''$c1'', EvTunnelClose None]"
    by (auto simp: NewWebsocketServer_def)
  have l: "lifecycle tr = [EvOnConnect ''$c1'', EvAcquireWriter, EvAcquireReader, EvGoWsToGuacd,
        EvReleaseReader, EvReleaseWriter, EvOnDisconnect ''$c1'', EvTunnelClose None]"
    unfolding d using l1 l2 l3 by simp
  have f: "lifecycle (fst (snd (ServeHTTP 8192 ''0.'' ?s' (Inr ?ws) ?r (init_loggers (\<lambda>a. zerolog_New Stderr))))) = []"
    using t'[THEN conjunct2, THEN conjunct1, THEN mp, OF disjI2, OF c'] .
  show ?thesis using c c' f l oc unfolding sv by simp
qed

section \<open>The upgrade\<close>

lemma ServeHTTP_starts_with_upgrade:
  "\<exists>res rest. fst (snd (ServeHTTP M opc s upgrade r h)) =
     EvUpgrade (websocketReadBufferSize M) (websocketWriteBufferSize M)
       [(''Sec-Websocket-Protocol'', [Header_Get (Header r) ''Sec-Websocket-Protocol''])] res # rest"
proof (cases upgrade)
  case (Inl err)
  then show ?thesis by (simp add: ServeHTTP_not_connected(1))
next
  case (Inr ws)
  show ?thesis
  proof (cases "connect_step s ws r")
    case None
    then show ?thesis using Inr by (simp add: ServeHTTP_not_connected(2))
  next
    case (Some a)
    obtain call res where a: "a = (call, res)" by (cases a)
    show ?thesis
    proof (cases res)
      case (Inl e)
      then show ?thesis using Inr Some a by (simp add: ServeHTTP_not_connected(3))
    next
      case (Inr t)
      then have c: "connect_step s ws r = Some (call, Inr t)" using Some a by simp
      show ?thesis unfolding \<open>upgrade = Inr ws\<close> ServeHTTP_connected[OF c] by simp
    qed
  qed
qed

text \<open>
  Claim C6. The first call of the handler is the upgrade. The response header it hands to
  \<open>Upgrade\<close> has the single entry \<open>Sec-Websocket-Protocol\<close>, whose single value is what
  \<open>Header.Get\<close> reads from the request under that name: the first value the client sent,
  unchanged. The upgrader's read buffer size is \<open>MaxGuacMessage\<close> and its write buffer size
  is twice \<open>MaxGuacMessage\<close>.
\<close>

theorem upgrade_echoes_protocol:
  "(\<exists>res rest. fst (snd (ServeHTTP M opc s upgrade r h)) =
      EvUpgrade (websocketReadBufferSize M) (websocketWriteBufferSize M)
        [(''Sec-Websocket-Protocol'', [Header_Get (Header r) ''Sec-Websocket-Protocol''])] res # rest)
   \<and> (map_of (Header r) ''Sec-Websocket-Protocol'' = Some (p # others) \<longrightarrow>
        Header_Get (Header r) ''Sec-Websocket-Protocol'' = p)
   \<and> M \<le> websocketReadBufferSize M
   \<and> 2 * M \<le> websocketWriteBufferSize M
   \<and> websocketReadBufferSize M = M
   \<and> websocketWriteBufferSize M = 2 * M"
  using ServeHTTP_starts_with_upgrade[of M opc s upgrade r h]
  by (simp add: Header_Get_def websocketReadBufferSize_def websocketWriteBufferSize_def)

theorem upgrade_echoes_protocol_witness:
  "map_of (Header \<lparr>Header = [(''Sec-Websocket-Protocol'', [''guacamole''])],
                   RemoteAddr = ''10.0.0.1:5000''\<rparr>) ''Sec-Websocket-Protocol''
     = Some (''guacamole'' # [])
   \<and> Header_Get (Header \<lparr>Header = [(''Sec-Websocket-Protocol'', [''guacamole''])],
                   RemoteAddr = ''10.0.0.1:5000''\<rparr>) ''Sec-Websocket-Protocol'' = ''guacamole''
   \<and> (\<exists>res rest. fst (snd (ServeHTTP 8192 ''0.''
          (NewWebsocketServer (Some (\<lambda>r. Inl (OtherError ''dial tcp: refused''))) None)
          (Inr \<lparr>ws_write_results = [], ws_close_result = None\<rparr>)
          \<lparr>Header = [(''Sec-Websocket-Protocol'', [''guacamole''])], RemoteAddr = ''10.0.0.1:5000''\<rparr>
          (init_loggers (\<lambda>a. zerolog_New Stderr)))) =
        EvUpgrade 8192 16384 [(''Sec-Websocket-Protocol'', [''guacamole''])] res # rest)"
proof -
  let ?r = "\<lparr>Header = [(''Sec-Websocket-Protocol'', [''guacamole''])], RemoteAddr = ''10.0.0.1:5000''\<rparr>"
  have h: "map_of (Header ?r) ''Sec-Websocket-Protocol'' = Some (''guacamole'' # [])" by simp
  note t = upgrade_echoes_protocol[where M=8192 and opc="''0.''" and r="?r" and p="''guacamole''"
      and others="[]" and h="init_loggers (\<lambda>a. zerolog_New Stderr)"
      and upgrade="Inr \<lparr>ws_write_results = [], ws_close_result = None\<rparr>"
      and s="NewWebsocketServer (Some (\<lambda>r. Inl (OtherError ''dial tcp: refused''))) None"]
  have g: "Header_Get (Header ?r) ''Sec-Websocket-Protocol'' = ''guacamole''"
    using t h by blast
  have sz: "websocketReadBufferSize 8192 = 8192" "websocketWriteBufferSize 8192 = 16384"
    using t by simp_all
  have u: "\<exists>res rest. fst (snd (ServeHTTP 8192 ''0.''
          (NewWebsocketServer (Some (\<lambda>r. Inl (OtherError ''dial tcp: refused''))) None)
          (Inr \<lparr>ws_write_results = [], ws_close_result = None\<rparr>) ?r
          (init_loggers (\<lambda>a. zerolog_New Stderr)))) =
        EvUpgrade (websocketReadBufferSize 8192) (websocketWriteBufferSize 8192)
          [(''Sec-Websocket-Protocol'', [Header_Get (Header ?r) ''Sec-Websocket-Protocol''])] res # rest"
    using t by blast
  show ?thesis using h g u unfolding sz g by simp
qed

section \<open>The default logger\<close>

lemma ServeHTTP_keeps_level_and_writer:
  "lvl (snd (snd (ServeHTTP M opc s upgrade r h)) a) = lvl (h a)
   \<and> out (snd (snd (ServeHTTP M opc s upgrade r h)) a) = out (h a)"
proof (cases upgrade)
  case (Inl err)
  then show ?thesis by (simp add: ServeHTTP_not_connected(1))
next
  case (Inr ws)
  show ?thesis
  proof (cases "connect_step s ws r")
    case None
    then show ?thesis using Inr by (simp add: ServeHTTP_not_connected(2))
  next
    case (Some a)
    obtain call res where a: "a = (call, res)" by (cases a)
    show ?thesis
    proof (cases res)
      case (Inl e)
      then show ?thesis using Inr Some a by (simp add: ServeHTTP_not_connected(3))
    next
      case (Inr t)
      then have c: "connect_step s ws r = Some (call, Inr t)" using Some a by simp
      show ?thesis unfolding \<open>upgrade = Inr ws\<close> ServeHTTP_connected[OF c]
        by (simp add: UpdateContext_def)
    qed
  qed
qed

text \<open>
  Claim C7. The logger that \<open>createDefaultLogger\<close> makes has level \<open>Disabled\<close> and writes to
  \<open>io.Discard\<close>; it is the value of the package variable when the package is initialised; no
  log call on it, at any level, writes anything. Serving a connection changes neither the
  level nor the writer of any logger, so after a connection served with the default logger
  in place the package logger still writes nothing.
\<close>

theorem default_logger_is_silent:
  "lvl createDefaultLogger = Disabled
   \<and> out createDefaultLogger = Discard
   \<and> GetLogger (init_loggers h) = createDefaultLogger
   \<and> log_output createDefaultLogger l fs msg = []
   \<and> lvl (snd (snd (ServeHTTP M opc s upgrade r h)) a) = lvl (h a)
   \<and> out (snd (snd (ServeHTTP M opc s upgrade r h)) a) = out (h a)
   \<and> log_output (GetLogger (snd (snd (ServeHTTP M opc s upgrade r (init_loggers h)))))
        l fs msg = []"
proof -
  have k: "lvl (snd (snd (ServeHTTP M opc s upgrade r (init_loggers h))) globalLogger) = Disabled"
     "out (snd (snd (ServeHTTP M opc s upgrade r (init_loggers h))) globalLogger) = Discard"
    using ServeHTTP_keeps_level_and_writer[of M opc s upgrade r "init_loggers h" globalLogger]
    by (simp_all add: init_loggers_def createDefaultLogger_def Level_def zerolog_New_def)
  show ?thesis
    using ServeHTTP_keeps_level_and_writer[of M opc s upgrade r h a] k
    by (simp add: createDefaultLogger_def Level_def zerolog_New_def GetLogger_def
        init_loggers_def log_output_def)
qed

theorem default_logger_is_silent_witness:
  "log_output createDefaultLogger ErrorLevel [FErr (OtherError ''EOF'')]
     ''failed to upgrade websocket'' = []
   \<and> log_output (GetLogger (snd (snd (ServeHTTP 8192 ''0.''
          (NewWebsocketServer (Some (\<lambda>r. Inl (OtherError ''dial tcp: refused''))) None)
          (Inl (OtherError ''bad handshake''))
          \<lparr>Header = [], RemoteAddr = ''10.0.0.1:5000''\<rparr>
          (init_loggers (\<lambda>a. zerolog_New Stderr))))))
        ErrorLevel [FErr (OtherError ''bad handshake'')] ''failed to upgrade websocket'' = []"
  using default_logger_is_silent[where l=ErrorLevel and fs="[FErr (OtherError ''EOF'')]"
      and msg="''failed to upgrade websocket''" and M=8192 and opc="''0.''"
      and h="\<lambda>a. zerolog_New Stderr" and a=0
      and s="NewWebsocketServer (Some (\<lambda>r. Inl (OtherError ''dial tcp: refused''))) None"
      and upgrade="Inl (OtherError ''bad handshake'')"
      and r="\<lparr>Header = [], RemoteAddr = ''10.0.0.1:5000''\<rparr>"]
    default_logger_is_silent[where l=ErrorLevel and fs="[FErr (OtherError ''bad handshake'')]"
      and msg="''failed to upgrade websocket''" and M=8192 and opc="''0.''"
      and h="\<lambda>a. zerolog_New Stderr" and a=0
      and s="NewWebsocketServer (Some (\<lambda>r. Inl (OtherError ''dial tcp: refused''))) None"
      and upgrade="Inl (OtherError ''bad handshake'')"
      and r="\<lparr>Header = [], RemoteAddr = ''10.0.0.1:5000''\<rparr>"]
  by blast

section \<open>The shared logger\<close>

lemma ServeHTTP_store:
  assumes "connect_step s ws r = Some (call, Inr t)" and "lvl (h (logger s)) \<noteq> Disabled"
  shows "snd (snd (ServeHTTP M opc s (Inr ws) r h)) =
     h(logger s := (h (logger s))\<lparr>lcontext := lcontext (h (logger s)) @
                                    [(''connection_id'', ConnectionID t)]\<rparr>)"
  unfolding ServeHTTP_connected[OF assms(1)] using assms(2)
  by (simp add: UpdateContext_def Str_def)

lemma ServeHTTP_store_disabled:
  assumes "connect_step s ws r = Some (call, Inr t)" and "lvl (h (logger s)) = Disabled"
  shows "snd (snd (ServeHTTP M opc s (Inr ws) r h)) = h"
  unfolding ServeHTTP_connected[OF assms(1)] using assms(2)
  by (simp add: UpdateContext_def)

text \<open>
  Claim C10 says that every connection leaves its \<open>connection_id\<close> in the context of the
  logger its server points to, the package logger by default. The handler does call
  \<open>UpdateContext\<close> on that pointer for every connection, but a logger whose level is
  \<open>Disabled\<close> keeps its context, and the package logger is disabled until a consumer sets
  another one. A server made without a logger, the package logger as \<open>createDefaultLogger\<close>
  made it, one connection whose connect step succeeds: the handler returns and the context of
  the package logger is still empty.
\<close>

theorem disabled_logger_keeps_context:
  "connect_step
     (NewWebsocketServer
        (Some (\<lambda>r. Inr \<lparr>ConnectionID = ''$c1'', instructions = [ReadErr (OtherError ''EOF'')],
                          tunnel_close_result = None\<rparr>)) None)
     \<lparr>ws_write_results = [], ws_close_result = None\<rparr>
     \<lparr>Header = [], RemoteAddr = ''10.0.0.1:5000''\<rparr>
   = Some (EvConnect, Inr \<lparr>ConnectionID = ''$c1'', instructions = [ReadErr (OtherError ''EOF'')],
                           tunnel_close_result = None\<rparr>)
   \<and> logger (NewWebsocketServer
        (Some (\<lambda>r. Inr \<lparr>ConnectionID = ''$c1'', instructions = [ReadErr (OtherError ''EOF'')],
                          tunnel_close_result = None\<rparr>)) None) = globalLogger
   \<and> fst (ServeHTTP 8192 ''0.''
        (NewWebsocketServer
           (Some (\<lambda>r. Inr \<lparr>ConnectionID = ''$c1'', instructions = [ReadErr (OtherError ''EOF'')],
                             tunnel_close_result = None\<rparr>)) None)
        (Inr \<lparr>ws_write_results = [], ws_close_result = None\<rparr>)
        \<lparr>Header = [], RemoteAddr = ''10.0.0.1:5000''\<rparr>
        (init_loggers (\<lambda>a. zerolog_New Stderr))) = Returned
   \<and> lcontext (GetLogger (init_loggers (\<lambda>a. zerolog_New Stderr))) = []
   \<and> lcontext (GetLogger (snd (snd (ServeHTTP 8192 ''0.''
        (NewWebsocketServer
           (Some (\<lambda>r. Inr \<lparr>ConnectionID = ''$c1'', instructions = [ReadErr (OtherError ''EOF'')],
                             tunnel_close_result = None\<rparr>)) None)
        (Inr \<lparr>ws_write_results = [], ws_close_result = None\<rparr>)
        \<lparr>Header = [], RemoteAddr = ''10.0.0.1:5000''\<rparr>
        (init_loggers (\<lambda>a. zerolog_New Stderr)))))) = []"
proof -
  let ?t = "\<lparr>ConnectionID = ''$c1'', instructions = [ReadErr (OtherError ''EOF'')],
             tunnel_close_result = None\<rparr>"
  let ?ws = "\<lparr>ws_write_results = [], ws_close_result = None\<rparr>"
  let ?r = "\<lparr>Header = [], RemoteAddr = ''10.0.0.1:5000''\<rparr>"
  let ?h = "init_loggers (\<lambda>a. zerolog_New Stderr)"
  let ?s = "NewWebsocketServer (Some (\<lambda>r. Inr ?t)) None"
  have c: "connect_step ?s ?ws ?r = Some (EvConnect, Inr ?t)"
    by (simp add: connect_step_def NewWebsocketServer_def)
  have lg: "logger ?s = globalLogger" by (simp add: NewWebsocketServer_def)
  have d: "lvl (?h (logger ?s)) = Disabled"
    unfolding lg by (simp add: init_loggers_def createDefaultLogger_def Level_def zerolog_New_def)
  have st: "snd (snd (ServeHTTP 8192 ''0.'' ?s (Inr ?ws) ?r ?h)) = ?h"
    by (rule ServeHTTP_store_disabled[where h="?h", OF c d])
  have p: "fst (guacdToWs 8192 ''0.'' [ReadErr (OtherError ''EOF'')] []) = Returned"
    by (simp add: guacdToWs_def emit_def)
  have oc: "fst (ServeHTTP 8192 ''0.'' ?s (Inr ?ws) ?r ?h) = Returned"
    unfolding ServeHTTP_connected[OF c] using p by simp
  have e: "lcontext (GetLogger ?h) = []"
    by (simp add: GetLogger_def init_loggers_def createDefaultLogger_def Level_def zerolog_New_def)
  show ?thesis unfolding st using c lg oc e by simp
qed

text \<open>
  Claim C10 as amended. \<open>ServeHTTP\<close> changes the logger its server points to, in place,
  unless that logger is disabled: when the connect step succeeds and the level of the logger
  is not \<open>Disabled\<close>, the handler leaves that logger with the pair \<open>connection_id\<close>, id of the
  tunnel, appended to its context, with its level unchanged, and every other logger as it
  was. A server made without a logger points to the package variable \<open>globalLogger\<close>, one made
  with a logger points to that one. So in a shared logger that is enabled the ids pile up:
  after two connections, on two servers that were made without a logger, the context of an
  enabled package logger is what it was before, followed by the id of the first connection
  and then the id of the second.
\<close>

theorem shared_logger_keeps_connection_ids:
  "(connect_step s ws r = Some (call, Inr t) \<and> lvl (h (logger s)) \<noteq> Disabled \<longrightarrow>
      snd (snd (ServeHTTP M opc s (Inr ws) r h)) (logger s) =
        (h (logger s))\<lparr>lcontext := lcontext (h (logger s)) @
                                    [(''connection_id'', ConnectionID t)]\<rparr>
      \<and> (\<forall>a. a \<noteq> logger s \<longrightarrow> snd (snd (ServeHTTP M opc s (Inr ws) r h)) a = h a))
   \<and> logger (NewWebsocketServer f None) = globalLogger
   \<and> logger (NewWebsocketServerWs g None) = globalLogger
   \<and> logger (NewWebsocketServer f (Some p)) = p
   \<and> logger (NewWebsocketServerWs g (Some p)) = p
   \<and> (cf ra = Inr ta \<and> cg wsb rb = Inr tb \<and> lvl (GetLogger h) \<noteq> Disabled \<longrightarrow>
        lcontext (GetLogger
          (snd (snd (ServeHTTP M opc (NewWebsocketServerWs (Some cg) None) (Inr wsb) rb
             (snd (snd (ServeHTTP M opc (NewWebsocketServer (Some cf) None) (Inr wsa) ra h))))))) =
        lcontext (GetLogger h) @
          [(''connection_id'', ConnectionID ta), (''connection_id'', ConnectionID tb)])"
proof (intro conjI impI allI)
  assume "connect_step s ws r = Some (call, Inr t) \<and> lvl (h (logger s)) \<noteq> Disabled"
  then have c: "connect_step s ws r = Some (call, Inr t)" and e: "lvl (h (logger s)) \<noteq> Disabled"
    by simp_all
  show "snd (snd (ServeHTTP M opc s (Inr ws) r h)) (logger s) =
        (h (logger s))\<lparr>lcontext := lcontext (h (logger s)) @
                                    [(''connection_id'', ConnectionID t)]\<rparr>"
    by (simp add: ServeHTTP_store[where h=h, OF c e])
  fix a assume "a \<noteq> logger s"
  then show "snd (snd (ServeHTTP M opc s (Inr ws) r h)) a = h a"
    by (simp add: ServeHTTP_store[where h=h, OF c e])
next
  show "logger (NewWebsocketServer f None) = globalLogger"
    by (simp add: NewWebsocketServer_def)
  show "logger (NewWebsocketServerWs g None) = globalLogger"
    by (simp add: NewWebsocketServerWs_def)
  show "logger (NewWebsocketServer f (Some p)) = p"
    by (simp add: NewWebsocketServer_def)
  show "logger (NewWebsocketServerWs g (Some p)) = p"
    by (simp add: NewWebsocketServerWs_def)
next
  assume a: "cf ra = Inr ta \<and> cg wsb rb = Inr tb \<and> lvl (GetLogger h) \<noteq> Disabled"
  let ?sa = "NewWebsocketServer (Some cf) None"
  let ?sb = "NewWebsocketServerWs (Some cg) None"
  have la: "logger ?sa = globalLogger" and lb: "logger ?sb = globalLogger"
    by (simp_all add: NewWebsocketServer_def NewWebsocketServerWs_def)
  have a1: "connect_step ?sa wsa ra = Some (EvConnect, Inr ta)"
    and a2: "connect_step ?sb wsb rb = Some (EvConnectWs, Inr tb)"
    using a by (simp_all add: connect_step_def NewWebsocketServer_def NewWebsocketServerWs_def)
  have e1: "lvl (h (logger ?sa)) \<noteq> Disabled" using a unfolding la by (simp add: GetLogger_def)
  let ?h1 = "snd (snd (ServeHTTP M opc ?sa (Inr wsa) ra h))"
  have s1: "?h1 = h(globalLogger := (h globalLogger)\<lparr>lcontext := lcontext (h globalLogger) @
                                    [(''connection_id'', ConnectionID ta)]\<rparr>)"
    using ServeHTTP_store[where h=h and M=M and opc=opc, OF a1 e1] unfolding la .
  have e2: "lvl (?h1 (logger ?sb)) \<noteq> Disabled"
    unfolding s1 lb using a by (simp add: GetLogger_def)
  have s2: "snd (snd (ServeHTTP M opc ?sb (Inr wsb) rb ?h1)) =
      ?h1(globalLogger := (?h1 globalLogger)\<lparr>lcontext := lcontext (?h1 globalLogger) @
                                    [(''connection_id'', ConnectionID tb)]\<rparr>)"
    using ServeHTTP_store[where h="?h1" and M=M and opc=opc, OF a2 e2] unfolding lb .
  show "lcontext (GetLogger
          (snd (snd (ServeHTTP M opc ?sb (Inr wsb) rb ?h1)))) =
        lcontext (GetLogger h) @
          [(''connection_id'', ConnectionID ta), (''connection_id'', ConnectionID tb)]"
    unfolding s2 unfolding s1 by (simp add: GetLogger_def)
qed


theorem shared_logger_keeps_connection_ids_witness:
  "connect_step
     (NewWebsocketServer
        (Some (\<lambda>r. Inr \<lparr>ConnectionID = ''$c1'', instructions = [ReadErr (OtherError ''EOF'')],
                          tunnel_close_result = None\<rparr>)) None)
     \<lparr>ws_write_results = [], ws_close_result = None\<rparr>
     \<lparr>Header = [], RemoteAddr = ''10.0.0.1:5000''\<rparr>
   = Some (EvConnect, Inr \<lparr>ConnectionID = ''$c1'', instructions = [ReadErr (OtherError ''EOF'')],
                           tunnel_close_result = None\<rparr>)
   \<and> lvl (GetLogger (SetLogLevel InfoLevel (init_loggers (\<lambda>a. zerolog_New Stderr)))) \<noteq> Disabled
   \<and> snd (snd (ServeHTTP 8192 ''0.''
        (NewWebsocketServer
           (Some (\<lambda>r. Inr \<lparr>ConnectionID = ''$c1'', instructions = [ReadErr (OtherError ''EOF'')],
                             tunnel_close_result = None\<rparr>)) None)
        (Inr \<lparr>ws_write_results = [], ws_close_result = None\<rparr>)
        \<lparr>Header = [], RemoteAddr = ''10.0.0.1:5000''\<rparr>
        (SetLogLevel InfoLevel (init_loggers (\<lambda>a. zerolog_New Stderr))))) globalLogger
     = \<lparr>out = Stderr, lvl = InfoLevel, lcontext = [(''connection_id'', ''$c1'')], timestamp = True\<rparr>
   \<and> snd (snd (ServeHTTP 8192 ''0.''
        (NewWebsocketServer
           (Some (\<lambda>r. Inr \<lparr>ConnectionID = ''$c1'', instructions = [ReadErr (OtherError ''EOF'')],
                             tunnel_close_result = None\<rparr>)) None)
        (Inr \<lparr>ws_write_results = [], ws_close_result = None\<rparr>)
        \<lparr>Header = [], RemoteAddr = ''10.0.0.1:5000''\<rparr>
        (SetLogLevel InfoLevel (init_loggers (\<lambda>a. zerolog_New Stderr))))) (Suc globalLogger)
     = zerolog_New Stderr
   \<and> lcontext (GetLogger
        (snd (snd (ServeHTTP 8192 ''0.''
           (NewWebsocketServerWs
              (Some (\<lambda>ws r. Inr \<lparr>ConnectionID = ''$c2'', instructions = [ReadErr (OtherError ''EOF'')],
                                   tunnel_close_result = None\<rparr>)) None)
           (Inr \<lparr>ws_write_results = [], ws_close_result = None\<rparr>)
           \<lparr>Header = [], RemoteAddr = ''10.0.0.2:5000''\<rparr>
           (snd (snd (ServeHTTP 8192 ''0.''
              (NewWebsocketServer
                 (Some (\<lambda>r. Inr \<lparr>ConnectionID = ''$c1'', instructions = [ReadErr (OtherError ''EOF'')],
                                   tunnel_close_result = None\<rparr>)) None)
              (Inr \<lparr>ws_write_results = [], ws_close_result = None\<rparr>)
              \<lparr>Header = [], RemoteAddr = ''10.0.0.1:5000''\<rparr>
              (SetLogLevel InfoLevel (init_loggers (\<lambda>a. zerolog_New Stderr))))))))))
     = [(''connection_id'', ''$c1''), (''connection_id'', ''$c2'')]"
proof -
  let ?ta = "\<lparr>ConnectionID = ''$c1'', instructions = [ReadErr (OtherError ''EOF'')],
              tunnel_close_result = None\<rparr>"
  let ?tb = "\<lparr>ConnectionID = ''$c2'', instructions = [ReadErr (OtherError ''EOF'')],
              tunnel_close_result = None\<rparr>"
  let ?ws = "\<lparr>ws_write_results = [], ws_close_result = None\<rparr>"
  let ?ra = "\<lparr>Header = [], RemoteAddr = ''10.0.0.1:5000''\<rparr>"
  let ?rb = "\<lparr>Header = [], RemoteAddr = ''10.0.0.2:5000''\<rparr>"
  let ?h = "SetLogLevel InfoLevel (init_loggers (\<lambda>a. zerolog_New Stderr))"
  let ?s = "NewWebsocketServer (Some (\<lambda>r. Inr ?ta)) None"
  have c: "connect_step ?s ?ws ?ra = Some (EvConnect, Inr ?ta)"
    by (simp add: connect_step_def NewWebsocketServer_def)
  have g: "GetLogger ?h = \<lparr>out = Stderr, lvl = InfoLevel, lcontext = [], timestamp = True\<rparr>"
    by (simp add: GetLogger_def SetLogLevel_def Level_def With_Timestamp_def zerolog_New_def)
  have en: "lvl (GetLogger ?h) \<noteq> Disabled" unfolding g by simp
  note t = shared_logger_keeps_connection_ids[where s="?s" and ws="?ws" and r="?ra"
      and call=EvConnect and t="?ta" and M=8192 and opc="''0.''" and h="?h"
      and cf="\<lambda>r. Inr ?ta" and ra="?ra" and ta="?ta" and wsa="?ws"
      and cg="\<lambda>ws r. Inr ?tb" and wsb="?ws" and rb="?rb" and tb="?tb"
      and f="Some (\<lambda>r. Inr ?ta)" and g="Some (\<lambda>ws r. Inr ?tb)" and p=1]
  have lg: "logger ?s = globalLogger" using t by blast
  have en': "lvl (?h (logger ?s)) \<noteq> Disabled" using en unfolding lg by (simp add: GetLogger_def)
  have h1: "connect_step ?s ?ws ?ra = Some (EvConnect, Inr ?ta) \<and> lvl (?h (logger ?s)) \<noteq> Disabled"
    using c en' by simp
  have x1: "snd (snd (ServeHTTP 8192 ''0.'' ?s (Inr ?ws) ?ra ?h)) (logger ?s) =
      (?h (logger ?s))\<lparr>lcontext := lcontext (?h (logger ?s)) @ [(''connection_id'', ConnectionID ?ta)]\<rparr>"
    using t[THEN conjunct1, THEN mp, OF h1] by blast
  have x2: "\<forall>a. a \<noteq> logger ?s \<longrightarrow> snd (snd (ServeHTTP 8192 ''0.'' ?s (Inr ?ws) ?ra ?h)) a = ?h a"
    using t[THEN conjunct1, THEN mp, OF h1] by blast
  have y1: "snd (snd (ServeHTTP 8192 ''0.'' ?s (Inr ?ws) ?ra ?h)) globalLogger =
      \<lparr>out = Stderr, lvl = InfoLevel, lcontext = [(''connection_id'', ''$c1'')], timestamp = True\<rparr>"
    using x1 g unfolding lg by (simp add: GetLogger_def)
  have y2: "snd (snd (ServeHTTP 8192 ''0.'' ?s (Inr ?ws) ?ra ?h)) (Suc globalLogger) = zerolog_New Stderr"
    using x2[rule_format, of "Suc globalLogger"] unfolding lg
    by (simp add: SetLogLevel_def init_loggers_def)
  have h2: "(\<lambda>r. Inr ?ta) ?ra = (Inr ?ta :: go_error + tunnel)
       \<and> (\<lambda>ws r. Inr ?tb) ?ws ?rb = (Inr ?tb :: go_error + tunnel)
       \<and> lvl (GetLogger ?h) \<noteq> Disabled" using en by simp
  have z: "lcontext (GetLogger
        (snd (snd (ServeHTTP 8192 ''0.'' (NewWebsocketServerWs (Some (\<lambda>ws r. Inr ?tb)) None) (Inr ?ws) ?rb
           (snd (snd (ServeHTTP 8192 ''0.'' ?s (Inr ?ws) ?ra ?h))))))) =
        lcontext (GetLogger ?h) @
          [(''connection_id'', ConnectionID ?ta), (''connection_id'', ConnectionID ?tb)]"
    using t[THEN conjunct2, THEN conjunct2, THEN conjunct2, THEN conjunct2, THEN conjunct2,
            THEN mp, OF h2] .
  show ?thesis unfolding z y1 y2 using c en g by simp
qed

end
